theory Spec2Isabelle
  imports Main "HOL-Library.Word"
begin

section \<open>Portable weather station: the interaction core of portableweather.ino\<close>

text \<open>
  The sketch is a single-threaded Arduino program: \<open>setup\<close> runs once, then \<open>loop\<close>
  runs forever. Its global variables become one record \<open>app\<close>, passed explicitly and
  returned updated. The outside world (pin levels, the radio's link status, the scan
  result) is a record \<open>hardware\<close> of functions of real time in milliseconds.

  Conventions of the embedding:
  \<^item> \<open>unsigned long\<close> is 32 bits wide on the ESP32, so every timestamp the sketch stores
    is a \<open>32 word\<close> and \<open>millis()\<close> is the real clock reduced modulo \<open>2^32\<close>;
    differences such as \<open>millis() - b.pressedAt\<close> wrap around as they do in C.
  \<^item> The real clock \<open>now\<close> advances in \<open>delay(n)\<close> and, by an amount that the
    hardware chooses (\<open>lapse\<close>), before each of the clock readings that follow the first
    one inside the keyboard long-press block (lines 543, 555 and 556), whose tests are
    made one after the other on a running clock. Elsewhere statements take no time, so
    two readings of \<open>millis()\<close> with no \<open>delay\<close> between them agree.
  \<^item> A pin level is a \<open>bool\<close>: \<open>HIGH\<close> is \<open>True\<close> (released, pull-up wiring),
    \<open>LOW\<close> is \<open>False\<close> (pressed).
  \<^item> \<open>int\<close> variables (menu index, cursor, list index) are \<open>int\<close>; none of them can
    overflow, they are reduced or clamped at every update.
  \<^item> Calls into the display, the radio and the serial port do not return data the
    interaction core depends on, except \<open>WiFi.status()\<close>, \<open>WiFi.localIP()\<close> and the
    scan. Display and radio calls are recorded, in order, in the field \<open>effects\<close>;
    serial output, the sensor readings and the HTTP requests
    of the weather and geolocation screens are omitted, as are the globals
    \<open>wifiStatusText\<close> and \<open>bmpPresent\<close> that only \<open>setup\<close> and the renderers use. The
    preferences store is a map from keys to strings.
  \<^item> The busy-wait loops \<open>while (isPressed(b)) { delay(10); updateButtons(); }\<close> may
    run forever, so the functions containing them return \<open>app option\<close> and \<open>None\<close>
    means that the call never returns.
\<close>

subsection \<open>Constants\<close>

abbreviation (input) HIGH :: bool where "HIGH \<equiv> True"
abbreviation (input) LOW :: bool where "LOW \<equiv> False"

definition BTN_UP_PIN :: nat where "BTN_UP_PIN = 15"
definition BTN_DOWN_PIN :: nat where "BTN_DOWN_PIN = 32"
definition BTN_SEL_PIN :: nat where "BTN_SEL_PIN = 21"
definition BTN_BACK_PIN :: nat where "BTN_BACK_PIN = 12"

definition DEBOUNCE_MS :: "32 word" where "DEBOUNCE_MS = 30"
definition LONGPRESS_MS :: "32 word" where "LONGPRESS_MS = 1200"
definition UI_REFRESH_MS :: "32 word" where "UI_REFRESH_MS = 700"
definition LOCAL_WEATHER_INTERVAL :: "32 word" where "LOCAL_WEATHER_INTERVAL = 1500"
definition WIFI_CONNECT_TIMEOUT :: "32 word" where "WIFI_CONNECT_TIMEOUT = 20000"

definition MENU_ITEMS :: "string list" where
  "MENU_ITEMS = [''Local Weather (BMP)'', ''API Weather (Mindanao)'', ''Geolocation'',
                 ''Connect to Wi-Fi'', ''Info / About'']"

definition MENU_COUNT :: int where "MENU_COUNT = int (length MENU_ITEMS)"

definition KEYBOARD_ROWS :: int where "KEYBOARD_ROWS = 6"
definition KEYBOARD_COLS :: int where "KEYBOARD_COLS = 10"

definition keyboardCells :: "string list" where
  "keyboardCells = [''abcdefghiJ'', ''klmnopqrst'', ''uvwxyzABCD'',
                    ''EFGHIJKLMN'', ''OPQRSTUVWX'', ''YZ01234567'']"

definition extraSymbols :: string where "extraSymbols = ''!@#.-_/:*?&''"

definition PREF_SSID_KEY :: string where "PREF_SSID_KEY = ''wifi_ssid''"
definition PREF_PWD_KEY :: string where "PREF_PWD_KEY = ''wifi_pwd''"

subsection \<open>Data model\<close>

text \<open>
  Modelled from the spec: the enumerator \<open>SCREEN_WIFI_MANUAL_SETUP\<close>, which the sketch
  uses (menu dispatch, short SELECT and BACK, long SELECT) but its \<open>enum Screen\<close> does not
  declare. It is the spec's screen ManualCredentialSetup, a screen of its own, distinct
  from all declared ones. The other enumerators are those of the sketch, in its order.
\<close>

datatype Screen =
    SCREEN_LOADING
  | SCREEN_MENU
  | SCREEN_LOCAL_WEATHER
  | SCREEN_API_WEATHER
  | SCREEN_GEOLOCATION
  | SCREEN_WIFI_SCAN
  | SCREEN_WIFI_PASSWORD
  | SCREEN_WIFI_CONNECTING
  | SCREEN_WIFI_RESULT
  | SCREEN_INFO
  | SCREEN_WIFI_KEYBOARD
  | SCREEN_WIFI_MANUAL_SETUP

datatype WiFiConnectState = WFC_IDLE | WFC_CONNECTING | WFC_CONNECTED | WFC_FAILED

record Btn =
  pin :: nat
  stable :: bool
  lastRaw :: bool
  lastChange :: "32 word"
  pressedAt :: "32 word"
  prevStable :: bool
  toggles :: "32 word"

text \<open>Calls to the radio and to the screen renderers, in the order they are made.\<close>

datatype effect =
    WiFiStatus
  | WiFiLocalIP
  | WiFiBegin string string
  | WiFiDisconnect
  | WiFiMode
  | WiFiScanNetworks
  | DrawScanning
  | Draw Screen
  | DrawConnecting string
  | DrawResult bool string

text \<open>
  The outside world: \<open>digitalRead p t\<close> is the level of pin \<open>p\<close> at time \<open>t\<close>,
  \<open>wifiLinked t\<close> says that \<open>WiFi.status()\<close> is \<open>WL_CONNECTED\<close> at time \<open>t\<close>,
  \<open>wifiLocalIP\<close> is the text of \<open>WiFi.localIP()\<close>, \<open>scanNetworks\<close> is the value returned
  by \<open>WiFi.scanNetworks\<close> (negative when the scan fails) and \<open>scanSSID i\<close> is
  \<open>WiFi.SSID(i)\<close>. \<open>lapse l t\<close> is the time, in milliseconds, that the statements
  executed since the previous clock reading have taken when the sketch reads the clock
  at source line \<open>l\<close> and the clock stood at \<open>t\<close> before.
\<close>

record hardware =
  digitalRead :: "nat \<Rightarrow> nat \<Rightarrow> bool"
  wifiLinked :: "nat \<Rightarrow> bool"
  wifiLocalIP :: string
  scanNetworks :: int
  scanSSID :: "nat \<Rightarrow> string"
  lapse :: "nat \<Rightarrow> nat \<Rightarrow> nat"

record app =
  now :: nat
  btnUp :: Btn
  btnDown :: Btn
  btnSel :: Btn
  btnBack :: Btn
  currentScreen :: Screen
  previousScreen :: Screen
  menuIndex :: int
  scannedSSIDs :: "string list"
  scannedCount :: int
  wifiListIndex :: int
  manualSSID :: string
  manualPassword :: string
  editingSSID :: bool
  wifiConnected :: bool
  localWeatherInitialized :: bool
  localWeatherLastUpdate :: "32 word"
  wifiConnectState :: WiFiConnectState
  wifiConnectStart :: "32 word"
  lastUiRefresh :: "32 word"
  kbRow :: int
  kbCol :: int
  preferences :: "string \<Rightarrow> string option"
  effects :: "effect list"

subsection \<open>Clock and effects\<close>

definition millis :: "app \<Rightarrow> 32 word" where
  "millis s = of_nat (now s)"

definition delay :: "nat \<Rightarrow> app \<Rightarrow> app" where
  "delay n s = s\<lparr>now := now s + n\<rparr>"

text \<open>The time that passes before the clock is read at source line \<open>l\<close>.\<close>

definition elapse :: "nat \<Rightarrow> hardware \<Rightarrow> app \<Rightarrow> app" where
  "elapse l hw s = delay (lapse hw l (now s)) s"

definition emit :: "effect \<Rightarrow> app \<Rightarrow> app" where
  "emit e s = s\<lparr>effects := effects s @ [e]\<rparr>"

definition putString :: "string \<Rightarrow> string \<Rightarrow> app \<Rightarrow> app" where
  "putString k v s = s\<lparr>preferences := (preferences s)(k \<mapsto> v)\<rparr>"

subsection \<open>Button helpers\<close>

text \<open>The lambda \<open>initB\<close> of \<open>setupButtons\<close>: \<open>raw\<close> is \<open>digitalRead(pin)\<close>, \<open>t\<close> is \<open>millis()\<close>.\<close>

definition initB :: "nat \<Rightarrow> bool \<Rightarrow> 32 word \<Rightarrow> Btn" where
  "initB p raw t =
     \<lparr>pin = p, stable = raw, lastRaw = raw, lastChange = t, pressedAt = 0,
      prevStable = raw, toggles = 0\<rparr>"

definition setupButtons :: "hardware \<Rightarrow> app \<Rightarrow> app" where
  "setupButtons hw s =
     s\<lparr>btnUp := initB BTN_UP_PIN (digitalRead hw BTN_UP_PIN (now s)) (millis s),
       btnDown := initB BTN_DOWN_PIN (digitalRead hw BTN_DOWN_PIN (now s)) (millis s),
       btnSel := initB BTN_SEL_PIN (digitalRead hw BTN_SEL_PIN (now s)) (millis s),
       btnBack := initB BTN_BACK_PIN (digitalRead hw BTN_BACK_PIN (now s)) (millis s)\<rparr>"

text \<open>The lambda \<open>updateOne\<close> of \<open>updateButtons\<close>, with the captured \<open>t\<close> and the sampled level.\<close>

definition updateOne :: "32 word \<Rightarrow> bool \<Rightarrow> Btn \<Rightarrow> Btn" where
  "updateOne t raw b =
     (if raw \<noteq> lastRaw b then b\<lparr>lastChange := t, lastRaw := raw\<rparr>
      else if t - lastChange b > DEBOUNCE_MS \<and> stable b \<noteq> raw
           then b\<lparr>stable := raw,
                  pressedAt := (if raw = LOW then t else 0),
                  toggles := toggles b + 1\<rparr>
           else b)"

definition updateButtons :: "hardware \<Rightarrow> app \<Rightarrow> app" where
  "updateButtons hw s =
     (let t = millis s in
      s\<lparr>btnUp := updateOne t (digitalRead hw (pin (btnUp s)) (now s)) (btnUp s),
        btnDown := updateOne t (digitalRead hw (pin (btnDown s)) (now s)) (btnDown s),
        btnSel := updateOne t (digitalRead hw (pin (btnSel s)) (now s)) (btnSel s),
        btnBack := updateOne t (digitalRead hw (pin (btnBack s)) (now s)) (btnBack s)\<rparr>)"

text \<open>\<open>pressedEdge\<close> and \<open>releasedEdge\<close> return the result and the button with the edge consumed.\<close>

definition pressedEdge :: "Btn \<Rightarrow> bool \<times> Btn" where
  "pressedEdge b = (prevStable b \<and> stable b = LOW, b\<lparr>prevStable := stable b\<rparr>)"

definition releasedEdge :: "Btn \<Rightarrow> bool \<times> Btn" where
  "releasedEdge b = (\<not> prevStable b \<and> stable b = HIGH, b\<lparr>prevStable := stable b\<rparr>)"

definition isPressed :: "Btn \<Rightarrow> bool" where
  "isPressed b = (stable b = LOW)"

subsection \<open>Screen renderers\<close>

text \<open>
  A renderer draws; the model records the call. \<open>showMenu\<close> and \<open>showLocalWeather\<close> also
  write the local-weather flags, \<open>showWiFiConnectResult\<close> and \<open>startWiFiConnect\<close> also
  switch the screen. \<open>showGeolocation\<close> asks the radio for its status in the middle of
  its drawing; the one \<open>Draw\<close> that stands for the whole drawing is recorded after the
  query.
\<close>

definition showMenu :: "app \<Rightarrow> app" where
  "showMenu s = emit (Draw SCREEN_MENU) (s\<lparr>localWeatherInitialized := False\<rparr>)"

definition showLocalWeather :: "app \<Rightarrow> app" where
  "showLocalWeather s =
     (let s1 = (if \<not> localWeatherInitialized s
                then (emit (Draw SCREEN_LOCAL_WEATHER) s)
                       \<lparr>localWeatherInitialized := True, localWeatherLastUpdate := 0\<rparr>
                else s)
      in if millis s1 - localWeatherLastUpdate s1 < LOCAL_WEATHER_INTERVAL then s1
         else emit (Draw SCREEN_LOCAL_WEATHER) (s1\<lparr>localWeatherLastUpdate := millis s1\<rparr>))"

definition showAPISummaryWeather :: "app \<Rightarrow> app" where
  "showAPISummaryWeather s = emit (Draw SCREEN_API_WEATHER) s"

definition showGeolocation :: "app \<Rightarrow> app" where
  "showGeolocation s = emit (Draw SCREEN_GEOLOCATION) (emit WiFiStatus s)"

definition showWiFiScan :: "app \<Rightarrow> app" where
  "showWiFiScan s = emit (Draw SCREEN_WIFI_SCAN) s"

text \<open>
  Modelled from the spec: the renderers \<open>showWiFiPasswordEntry\<close> and
  \<open>showWiFiManualSetup\<close>, which the sketch declares and calls but does not define. By
  the spec a renderer is a draw operation on the render surface and a transition is
  made by the navigation code that calls it, so each of the two records its call and
  changes nothing else.
\<close>

definition showWiFiPasswordEntry :: "app \<Rightarrow> app" where
  "showWiFiPasswordEntry s = emit (Draw SCREEN_WIFI_PASSWORD) s"

definition showWiFiManualSetup :: "app \<Rightarrow> app" where
  "showWiFiManualSetup s = emit (Draw SCREEN_WIFI_MANUAL_SETUP) s"

definition showKeyboard :: "app \<Rightarrow> app" where
  "showKeyboard s = emit (Draw SCREEN_WIFI_KEYBOARD) s"

definition showInfo :: "app \<Rightarrow> app" where
  "showInfo s = emit (Draw SCREEN_INFO) s"

definition showWiFiConnectResult :: "bool \<Rightarrow> string \<Rightarrow> app \<Rightarrow> app" where
  "showWiFiConnectResult ok msg s =
     emit (DrawResult ok msg) (s\<lparr>currentScreen := SCREEN_WIFI_RESULT\<rparr>)"

text \<open>
  \<open>startWifiScanAndShow\<close>: the scan result is capped at 31 entries, an empty or failed
  scan becomes the single entry "No networks found".
\<close>

definition startWifiScanAndShow :: "hardware \<Rightarrow> app \<Rightarrow> app" where
  "startWifiScanAndShow hw s =
     (let s1 = emit WiFiScanNetworks (delay 80 (emit DrawScanning s));
          n0 = scanNetworks hw;
          n1 = (if n0 > 31 then 31 else n0);
          s2 = (if n1 \<le> 0
                then s1\<lparr>scannedCount := 1,
                        scannedSSIDs := (scannedSSIDs s1)[0 := ''No networks found'']\<rparr>
                else s1\<lparr>scannedCount := n1,
                        scannedSSIDs := map (scanSSID hw) [0..<nat n1]
                                        @ drop (nat n1) (scannedSSIDs s1)\<rparr>)
      in showWiFiScan (s2\<lparr>wifiListIndex := 0\<rparr>))"

definition startWiFiConnect :: "string \<Rightarrow> string \<Rightarrow> app \<Rightarrow> app" where
  "startWiFiConnect ssid pwd s =
     (let s1 = s\<lparr>currentScreen := SCREEN_WIFI_CONNECTING,
                 wifiConnectState := WFC_CONNECTING,
                 wifiConnectStart := millis s\<rparr>;
          s2 = emit (DrawConnecting ssid) s1;
          s3 = putString PREF_PWD_KEY pwd (putString PREF_SSID_KEY ssid s2);
          s4 = delay 120 (emit WiFiDisconnect s3)
      in emit (WiFiBegin ssid pwd) (emit WiFiMode s4))"

subsection \<open>The short-press handlers of \<open>loop\<close>\<close>

text \<open>C's \<open>%\<close> truncates towards zero.\<close>

definition c_rem :: "int \<Rightarrow> int \<Rightarrow> int" where
  "c_rem a b = sgn a * (\<bar>a\<bar> mod \<bar>b\<bar>)"

text \<open>The body of \<open>if (pressedEdge(btnUp))\<close>.\<close>

definition onUpEdge :: "app \<Rightarrow> app" where
  "onUpEdge s =
     (if currentScreen s = SCREEN_MENU
      then showMenu (s\<lparr>menuIndex := c_rem (menuIndex s - 1 + MENU_COUNT) MENU_COUNT\<rparr>)
      else if currentScreen s = SCREEN_WIFI_SCAN
      then (if scannedCount s > 0
            then showWiFiScan (s\<lparr>wifiListIndex := max 0 (wifiListIndex s - 1)\<rparr>)
            else s)
      else if currentScreen s = SCREEN_WIFI_KEYBOARD
      then showKeyboard (s\<lparr>kbRow := max 0 (kbRow s - 1)\<rparr>)
      else s)"

text \<open>The body of \<open>if (pressedEdge(btnDown))\<close>.\<close>

definition onDownEdge :: "app \<Rightarrow> app" where
  "onDownEdge s =
     (if currentScreen s = SCREEN_MENU
      then showMenu (s\<lparr>menuIndex := c_rem (menuIndex s + 1) MENU_COUNT\<rparr>)
      else if currentScreen s = SCREEN_WIFI_SCAN
      then (if scannedCount s > 0
            then showWiFiScan
                   (s\<lparr>wifiListIndex := min (scannedCount s - 1) (wifiListIndex s + 1)\<rparr>)
            else s)
      else if currentScreen s = SCREEN_WIFI_KEYBOARD
      then showKeyboard (s\<lparr>kbRow := min (KEYBOARD_ROWS - 1) (kbRow s + 1)\<rparr>)
      else s)"

text \<open>The \<open>switch (menuIndex)\<close> of the SELECT handler on the menu screen.\<close>

definition menuDispatch :: "hardware \<Rightarrow> app \<Rightarrow> app" where
  "menuDispatch hw s =
     (if menuIndex s = 0
      then showLocalWeather
             (s\<lparr>currentScreen := SCREEN_LOCAL_WEATHER, localWeatherInitialized := False\<rparr>)
      else if menuIndex s = 1
      then showAPISummaryWeather (s\<lparr>currentScreen := SCREEN_API_WEATHER\<rparr>)
      else if menuIndex s = 2
      then showGeolocation (s\<lparr>currentScreen := SCREEN_GEOLOCATION\<rparr>)
      else if menuIndex s = 3
      then startWifiScanAndShow hw (s\<lparr>currentScreen := SCREEN_WIFI_SCAN\<rparr>)
      else if menuIndex s = 4
      then showWiFiManualSetup (s\<lparr>currentScreen := SCREEN_WIFI_MANUAL_SETUP\<rparr>)
      else if menuIndex s = 5
      then showInfo (s\<lparr>currentScreen := SCREEN_INFO\<rparr>)
      else s)"

text \<open>
  The body of \<open>if (pressedEdge(btnSel))\<close>. \<open>scannedSSIDs[wifiListIndex]\<close> is read with
  \<open>!\<close>; the index is in range whenever the scan screen was entered through the menu.
\<close>

definition onSelEdge :: "hardware \<Rightarrow> app \<Rightarrow> app" where
  "onSelEdge hw s =
     (if currentScreen s = SCREEN_MENU
      then menuDispatch hw (s\<lparr>previousScreen := currentScreen s\<rparr>)
      else if currentScreen s = SCREEN_LOCAL_WEATHER
      then showMenu (s\<lparr>currentScreen := SCREEN_MENU\<rparr>)
      else if currentScreen s = SCREEN_API_WEATHER
      then showMenu (s\<lparr>currentScreen := SCREEN_MENU\<rparr>)
      else if currentScreen s = SCREEN_GEOLOCATION
      then showMenu (s\<lparr>currentScreen := SCREEN_MENU\<rparr>)
      else if currentScreen s = SCREEN_WIFI_SCAN
      then (if scannedCount s > 0
            then showKeyboard
                   (s\<lparr>manualSSID := scannedSSIDs s ! nat (wifiListIndex s),
                      manualPassword := '''',
                      editingSSID := False,
                      currentScreen := SCREEN_WIFI_KEYBOARD,
                      kbRow := 0,
                      kbCol := 0\<rparr>)
            else s)
      else if currentScreen s = SCREEN_WIFI_PASSWORD
      then showWiFiPasswordEntry s
      else if currentScreen s = SCREEN_WIFI_MANUAL_SETUP
      then showWiFiManualSetup (s\<lparr>editingSSID := (\<not> editingSSID s)\<rparr>)
      else if currentScreen s = SCREEN_WIFI_KEYBOARD
      then showKeyboard (s\<lparr>kbCol := min (KEYBOARD_COLS - 1) (kbCol s + 1)\<rparr>)
      else if currentScreen s = SCREEN_WIFI_CONNECTING
      then s
      else if currentScreen s = SCREEN_WIFI_RESULT
      then showMenu (s\<lparr>currentScreen := SCREEN_MENU\<rparr>)
      else if currentScreen s = SCREEN_INFO
      then showMenu (s\<lparr>currentScreen := SCREEN_MENU\<rparr>)
      else s)"

text \<open>The body of \<open>if (pressedEdge(btnBack))\<close>.\<close>

definition onBackEdge :: "app \<Rightarrow> app" where
  "onBackEdge s =
     (if currentScreen s = SCREEN_MENU
      then s
      else if currentScreen s = SCREEN_WIFI_KEYBOARD
      then showKeyboard (s\<lparr>kbCol := max 0 (kbCol s - 1)\<rparr>)
      else if currentScreen s = SCREEN_LOCAL_WEATHER
      then showMenu (s\<lparr>currentScreen := SCREEN_MENU\<rparr>)
      else if currentScreen s = SCREEN_API_WEATHER
      then showMenu (s\<lparr>currentScreen := SCREEN_MENU\<rparr>)
      else if currentScreen s = SCREEN_GEOLOCATION
      then showMenu (s\<lparr>currentScreen := SCREEN_MENU\<rparr>)
      else if currentScreen s = SCREEN_WIFI_SCAN
      then showMenu (s\<lparr>currentScreen := SCREEN_MENU\<rparr>)
      else if currentScreen s = SCREEN_WIFI_MANUAL_SETUP
      then showMenu (s\<lparr>currentScreen := SCREEN_MENU\<rparr>)
      else if currentScreen s = SCREEN_WIFI_CONNECTING
      then showWiFiConnectResult False ''Cancelled by user''
             ((emit WiFiDisconnect s)\<lparr>wifiConnectState := WFC_FAILED\<rparr>)
      else showMenu (s\<lparr>currentScreen := SCREEN_MENU\<rparr>))"

subsection \<open>The long-press handlers of \<open>loop\<close>\<close>

text \<open>
  The character under the cursor, with the last row's columns from 8 on taken from
  \<open>extraSymbols\<close>. The cursor is inside the grid whenever this is evaluated.
\<close>

definition highlightedChar :: "int \<Rightarrow> int \<Rightarrow> char" where
  "highlightedChar r c =
     (let ch = keyboardCells ! nat r ! nat c
      in if r = KEYBOARD_ROWS - 1 \<and> c \<ge> 8
         then (let symIndex = c - 8
               in if symIndex < int (length extraSymbols)
                  then extraSymbols ! nat symIndex else ch)
         else ch)"

definition insertHighlighted :: "app \<Rightarrow> app" where
  "insertHighlighted s =
     (let ch = highlightedChar (kbRow s) (kbCol s)
      in if editingSSID s
         then (if length (manualSSID s) < 32 then s\<lparr>manualSSID := manualSSID s @ [ch]\<rparr> else s)
         else (if length (manualPassword s) < 64
               then s\<lparr>manualPassword := manualPassword s @ [ch]\<rparr> else s))"

definition deleteLast :: "app \<Rightarrow> app" where
  "deleteLast s =
     (if editingSSID s
      then (if length (manualSSID s) > 0 then s\<lparr>manualSSID := butlast (manualSSID s)\<rparr> else s)
      else (if length (manualPassword s) > 0
            then s\<lparr>manualPassword := butlast (manualPassword s)\<rparr> else s))"

text \<open>
  \<open>while (isPressed(b)) { delay(10); updateButtons(); }\<close> for the button selected by
  \<open>sel\<close>. The loop runs for as long as the button is stable-pressed.
\<close>

partial_function (option) waitRelease :: "(app \<Rightarrow> Btn) \<Rightarrow> hardware \<Rightarrow> app \<Rightarrow> app option" where
  "waitRelease sel hw s =
     (if isPressed (sel s) then waitRelease sel hw (updateButtons hw (delay 10 s))
      else Some s)"

text \<open>\<open>isPressed(b) && b.pressedAt != 0 && (millis() - b.pressedAt) > LONGPRESS_MS\<close>.\<close>

definition longHeld :: "app \<Rightarrow> Btn \<Rightarrow> bool" where
  "longHeld s b = (isPressed b \<and> pressedAt b \<noteq> 0 \<and> millis s - pressedAt b > LONGPRESS_MS)"

text \<open>SELECT long on the keyboard: insert the highlighted character, wait for release.\<close>

definition kbSelLong :: "hardware \<Rightarrow> app \<Rightarrow> app option" where
  "kbSelLong hw s =
     (if longHeld s (btnSel s)
      then map_option showKeyboard (waitRelease btnSel hw (insertHighlighted s))
      else Some s)"

text \<open>BACK long on the keyboard: delete the last character, wait for release.\<close>

definition kbBackLong :: "hardware \<Rightarrow> app \<Rightarrow> app option" where
  "kbBackLong hw s =
     (if longHeld s (btnBack s)
      then map_option showKeyboard (waitRelease btnBack hw (deleteLast s))
      else Some s)"

text \<open>
  SELECT and BACK long together: save the credentials and start connecting. The two
  hold times are taken from two successive readings of the clock (lines 555 and 556).
\<close>

definition kbConfirm :: "hardware \<Rightarrow> app \<Rightarrow> app" where
  "kbConfirm hw s =
     (if isPressed (btnSel s) \<and> isPressed (btnBack s)
         \<and> pressedAt (btnSel s) \<noteq> 0 \<and> pressedAt (btnBack s) \<noteq> 0
      then (let s1 = elapse 555 hw s;
                heldSel = millis s1 - pressedAt (btnSel s1);
                s2 = elapse 556 hw s1;
                heldBack = millis s2 - pressedAt (btnBack s2)
            in if heldSel > LONGPRESS_MS \<and> heldBack > LONGPRESS_MS
               then delay 40
                      (startWiFiConnect (manualSSID s2) (manualPassword s2)
                         (putString PREF_PWD_KEY (manualPassword s2)
                            (putString PREF_SSID_KEY (manualSSID s2) s2)))
               else s2)
      else s)"

text \<open>
  The block \<open>if (currentScreen == SCREEN_WIFI_KEYBOARD) { ... }\<close>. The SELECT test reads
  the clock first (line 521); the BACK test reads it again (line 543) after the SELECT
  block, and the compound test reads it twice more.
\<close>

definition kbLongPress :: "hardware \<Rightarrow> app \<Rightarrow> app option" where
  "kbLongPress hw s =
     (if currentScreen s = SCREEN_WIFI_KEYBOARD
      then (case kbSelLong hw s of
              None \<Rightarrow> None
            | Some s1 \<Rightarrow>
                (case kbBackLong hw (elapse 543 hw s1) of
                   None \<Rightarrow> None
                 | Some s2 \<Rightarrow> Some (kbConfirm hw s2)))
      else Some s)"

text \<open>The block \<open>if (currentScreen == SCREEN_WIFI_MANUAL_SETUP) { ... }\<close>.\<close>

definition manualLongPress :: "hardware \<Rightarrow> app \<Rightarrow> app option" where
  "manualLongPress hw s =
     (if currentScreen s = SCREEN_WIFI_MANUAL_SETUP
      then (if longHeld s (btnSel s)
            then waitRelease btnSel hw
                   (showKeyboard (s\<lparr>currentScreen := SCREEN_WIFI_KEYBOARD, kbRow := 0, kbCol := 0\<rparr>))
            else Some s)
      else Some s)"

subsection \<open>Periodic refresh and the connection poll\<close>

text \<open>
  The branch of the periodic refresh that polls the radio (the body of
  \<open>else if (currentScreen == SCREEN_WIFI_CONNECTING && wifiConnectState == WFC_CONNECTING)\<close>).
\<close>

definition pollWiFi :: "hardware \<Rightarrow> app \<Rightarrow> app" where
  "pollWiFi hw s =
     (let s1 = emit WiFiStatus s
      in if wifiLinked hw (now s)
         then showWiFiConnectResult True (''Connected: '' @ wifiLocalIP hw)
                (emit WiFiLocalIP (s1\<lparr>wifiConnectState := WFC_CONNECTED, wifiConnected := True\<rparr>))
         else if millis s - wifiConnectStart s > WIFI_CONNECT_TIMEOUT
         then showWiFiConnectResult False ''Timeout''
                ((emit WiFiDisconnect s1)\<lparr>wifiConnectState := WFC_FAILED, wifiConnected := False\<rparr>)
         else s1)"

definition periodicRefresh :: "hardware \<Rightarrow> app \<Rightarrow> app" where
  "periodicRefresh hw s =
     (let now' = millis s
      in if now' - lastUiRefresh s > UI_REFRESH_MS
         then (let s1 = s\<lparr>lastUiRefresh := now'\<rparr>
               in if currentScreen s1 = SCREEN_LOCAL_WEATHER then showLocalWeather s1
                  else if currentScreen s1 = SCREEN_WIFI_CONNECTING
                          \<and> wifiConnectState s1 = WFC_CONNECTING
                  then pollWiFi hw s1
                  else s1)
         else s)"

subsection \<open>One scheduler tick\<close>

text \<open>
  \<open>loop\<close>: sample the buttons, consume and route the four press edges in the order
  UP, DOWN, SELECT, BACK, run the long-press blocks, run the periodic refresh, yield.
  Each \<open>if (pressedEdge(b)) { ... }\<close> statement is one phase: the call consumes the
  edge of \<open>b\<close> whatever it returns, the body runs when it returns true.
\<close>

definition upPhase :: "app \<Rightarrow> app" where
  "upPhase s =
     (let r = pressedEdge (btnUp s); s' = s\<lparr>btnUp := snd r\<rparr>
      in if fst r then onUpEdge s' else s')"

definition downPhase :: "app \<Rightarrow> app" where
  "downPhase s =
     (let r = pressedEdge (btnDown s); s' = s\<lparr>btnDown := snd r\<rparr>
      in if fst r then onDownEdge s' else s')"

definition selPhase :: "hardware \<Rightarrow> app \<Rightarrow> app" where
  "selPhase hw s =
     (let r = pressedEdge (btnSel s); s' = s\<lparr>btnSel := snd r\<rparr>
      in if fst r then onSelEdge hw s' else s')"

definition backPhase :: "app \<Rightarrow> app" where
  "backPhase s =
     (let r = pressedEdge (btnBack s); s' = s\<lparr>btnBack := snd r\<rparr>
      in if fst r then onBackEdge s' else s')"

definition edgesPhase :: "hardware \<Rightarrow> app \<Rightarrow> app" where
  "edgesPhase hw s = backPhase (selPhase hw (downPhase (upPhase (updateButtons hw s))))"

definition loop :: "hardware \<Rightarrow> app \<Rightarrow> app option" where
  "loop hw s =
     (case kbLongPress hw (edgesPhase hw s) of
        None \<Rightarrow> None
      | Some s1 \<Rightarrow>
          (case manualLongPress hw s1 of
             None \<Rightarrow> None
           | Some s2 \<Rightarrow> Some (delay 8 (periodicRefresh hw s2))))"

subsection \<open>Auxiliary definitions for the statements\<close>

text \<open>The cursor of the on-screen keyboard is inside the grid.\<close>

definition cursorInGrid :: "app \<Rightarrow> bool" where
  "cursorInGrid s =
     (0 \<le> kbRow s \<and> kbRow s < KEYBOARD_ROWS \<and> 0 \<le> kbCol s \<and> kbCol s < KEYBOARD_COLS)"

text \<open>
  Concrete inputs: hardware on which no button is ever pressed, the radio never
  links and the statements between two clock readings take no time, and a state on the menu with the clock at 0, all buttons released, nothing
  stored and nothing drawn yet.
\<close>

definition quietHw :: hardware where
  "quietHw = \<lparr>digitalRead = (\<lambda>p t. HIGH), wifiLinked = (\<lambda>t. False),
              wifiLocalIP = ''192.168.4.2'', scanNetworks = 2,
              scanSSID = (\<lambda>i. if i = 0 then ''home'' else ''cafe''),
              lapse = (\<lambda>l t. 0)\<rparr>"

definition menuState :: app where
  "menuState =
     \<lparr>now = 0,
      btnUp = initB BTN_UP_PIN HIGH 0, btnDown = initB BTN_DOWN_PIN HIGH 0,
      btnSel = initB BTN_SEL_PIN HIGH 0, btnBack = initB BTN_BACK_PIN HIGH 0,
      currentScreen = SCREEN_MENU, previousScreen = SCREEN_LOADING, menuIndex = 0,
      scannedSSIDs = replicate 32 [], scannedCount = 0, wifiListIndex = 0,
      manualSSID = [], manualPassword = [], editingSSID = True,
      wifiConnected = False, localWeatherInitialized = False, localWeatherLastUpdate = 0,
      wifiConnectState = WFC_IDLE, wifiConnectStart = 0, lastUiRefresh = 0,
      kbRow = 0, kbCol = 0, preferences = Map.empty, effects = []\<rparr>"

text \<open>
  The scan screen as entered from the menu item "Connect to Wi-Fi", with a secret and a
  cursor position left over from an earlier keyboard session.
\<close>

definition scanState :: app where
  "scanState =
     onSelEdge quietHw
       (menuState\<lparr>menuIndex := 3, manualPassword := ''old secret'', kbRow := 2, kbCol := 7\<rparr>)"

text \<open>
  Two states differ at most in the clock and the four buttons: what the busy-wait
  loops and \<open>updateButtons\<close> may change.
\<close>

definition onlyClockAndButtons :: "app \<Rightarrow> app \<Rightarrow> bool" where
  "onlyClockAndButtons s s' =
     (currentScreen s' = currentScreen s \<and> previousScreen s' = previousScreen s
      \<and> menuIndex s' = menuIndex s \<and> scannedSSIDs s' = scannedSSIDs s
      \<and> scannedCount s' = scannedCount s \<and> wifiListIndex s' = wifiListIndex s
      \<and> manualSSID s' = manualSSID s \<and> manualPassword s' = manualPassword s
      \<and> editingSSID s' = editingSSID s \<and> wifiConnected s' = wifiConnected s
      \<and> localWeatherInitialized s' = localWeatherInitialized s
      \<and> localWeatherLastUpdate s' = localWeatherLastUpdate s
      \<and> wifiConnectState s' = wifiConnectState s \<and> wifiConnectStart s' = wifiConnectStart s
      \<and> lastUiRefresh s' = lastUiRefresh s \<and> kbRow s' = kbRow s \<and> kbCol s' = kbCol s
      \<and> preferences s' = preferences s \<and> effects s' = effects s)"

text \<open>The keyboard screen with the cursor in the bottom right corner of the grid.\<close>

definition kbCorner :: app where
  "kbCorner = menuState\<lparr>currentScreen := SCREEN_WIFI_KEYBOARD, kbRow := 5, kbCol := 9\<rparr>"

subsection \<open>Call sequences on one button\<close>

text \<open>
  The sketch touches a \<open>Btn\<close> only through \<open>initB\<close>, \<open>updateOne\<close>, \<open>pressedEdge\<close> and
  \<open>releasedEdge\<close>. A call sequence lists the calls made on one button after \<open>initB\<close>:
  \<open>Sample t raw\<close> is \<open>updateOne\<close> at real time \<open>t\<close> (so \<open>millis()\<close> reads \<open>of_nat t\<close>)
  with sampled level \<open>raw\<close>. In \<open>loop\<close> a sample is normally followed by one
  \<open>pressedEdge\<close>, but the busy-wait loops sample without asking for the edge, so any
  interleaving is allowed.
\<close>

datatype btn_call = Sample nat bool | PressedEdge | ReleasedEdge

fun btnStep :: "Btn \<Rightarrow> btn_call \<Rightarrow> Btn" where
  "btnStep b (Sample t raw) = updateOne (of_nat t) raw b"
| "btnStep b PressedEdge = snd (pressedEdge b)"
| "btnStep b ReleasedEdge = snd (releasedEdge b)"

definition btnRun :: "Btn \<Rightarrow> btn_call list \<Rightarrow> Btn" where
  "btnRun b cs = foldl btnStep b cs"

fun edgeCount :: "Btn \<Rightarrow> btn_call list \<Rightarrow> nat" where
  "edgeCount b [] = 0"
| "edgeCount b (c # cs) =
     (if c = PressedEdge \<and> fst (pressedEdge b) then 1 else 0) + edgeCount (btnStep b c) cs"

fun chronological :: "nat \<Rightarrow> btn_call list \<Rightarrow> bool" where
  "chronological tp [] = True"
| "chronological tp (Sample t raw # cs) = (tp \<le> t \<and> chronological t cs)"
| "chronological tp (c # cs) = chronological tp cs"

fun longRuns :: "nat option \<Rightarrow> bool \<Rightarrow> btn_call list \<Rightarrow> nat" where
  "longRuns st cnt [] = 0"
| "longRuns st cnt (Sample t raw # cs) =
     (if raw = HIGH then longRuns None False cs
      else (case st of
              None \<Rightarrow> longRuns (Some t) False cs
            | Some t0 \<Rightarrow>
                if \<not> cnt \<and> t - t0 \<ge> 30 then 1 + longRuns st True cs
                else longRuns st cnt cs))"
| "longRuns st cnt (c # cs) = longRuns st cnt cs"

fun lowRun :: "btn_call list \<Rightarrow> bool" where
  "lowRun [] = True"
| "lowRun (Sample t raw # cs) = (raw = LOW \<and> lowRun cs)"
| "lowRun (c # cs) = lowRun cs"

text \<open>
  \<open>edgeCount\<close> is the number of \<open>pressedEdge\<close> calls of the sequence that return true.
  \<open>chronological\<close> says that the sample times do not decrease. \<open>lowRun\<close> says that every
  sample of the sequence is low, so the sequence lies inside one contiguous low run.
  \<open>longRuns st cnt cs\<close> follows the wording of the claim: it counts the contiguous runs of
  low samples in \<open>cs\<close> that last at least 30 ms from their first low sample, where \<open>st\<close> is
  the time of the first sample of the run in progress, if the level is low, and \<open>cnt\<close> says
  that this run has been counted already.

  The next three definitions are bookkeeping for the proof: an edge that \<open>pressedEdge\<close>
  would report now, a run that is long but not yet committed, and the relation between the
  button and the run in progress.
\<close>

definition pending :: "Btn \<Rightarrow> nat" where
  "pending b = (if prevStable b \<and> stable b = LOW then 1 else 0)"

definition reserve :: "Btn \<Rightarrow> nat option \<Rightarrow> bool \<Rightarrow> nat" where
  "reserve b st cnt = (if st \<noteq> None \<and> cnt \<and> stable b = HIGH then 1 else 0)"

definition tracks :: "Btn \<Rightarrow> nat option \<Rightarrow> nat \<Rightarrow> bool" where
  "tracks b st tp =
     (case st of None \<Rightarrow> lastRaw b = HIGH
               | Some t0 \<Rightarrow> lastRaw b = LOW \<and> lastChange b = of_nat t0 \<and> t0 \<le> tp)"

definition edgeCap :: "Btn \<Rightarrow> nat" where
  "edgeCap b = (if \<not> prevStable b \<and> stable b = LOW then 0 else 1)"

definition holdTrace :: "btn_call list" where
  "holdTrace = [Sample 10 LOW, PressedEdge, Sample 20 LOW, PressedEdge, Sample 45 LOW,
                PressedEdge, Sample 55 LOW, PressedEdge, Sample 65 LOW, PressedEdge]"

definition bounceTrace :: "btn_call list" where
  "bounceTrace = [Sample 10 LOW, PressedEdge, Sample 18 LOW, PressedEdge, Sample 26 HIGH,
                  PressedEdge, Sample 70 HIGH, PressedEdge, Sample 80 LOW, PressedEdge]"

text \<open>No sample of the sequence is taken at a \<open>millis()\<close> reading of 0.\<close>

fun stampsNonzero :: "btn_call list \<Rightarrow> bool" where
  "stampsNonzero [] = True"
| "stampsNonzero (Sample t raw # cs) = ((of_nat t :: 32 word) \<noteq> 0 \<and> stampsNonzero cs)"
| "stampsNonzero (c # cs) = stampsNonzero cs"

text \<open>
  The button is stable-pressed before the sequence, between any two of its calls and
  after it: no release is committed.
\<close>

fun heldThroughout :: "Btn \<Rightarrow> btn_call list \<Rightarrow> bool" where
  "heldThroughout b [] = isPressed b"
| "heldThroughout b (c # cs) = (isPressed b \<and> heldThroughout (btnStep b c) cs)"

text \<open>
  A button, and all four buttons of a state, have a non-zero \<open>pressedAt\<close> only when
  stable-pressed.
\<close>

definition btnOk :: "Btn \<Rightarrow> bool" where
  "btnOk b = (pressedAt b \<noteq> 0 \<longrightarrow> isPressed b)"

definition btnsOk :: "app \<Rightarrow> bool" where
  "btnsOk s = (btnOk (btnUp s) \<and> btnOk (btnDown s) \<and> btnOk (btnSel s) \<and> btnOk (btnBack s))"

text \<open>Hardware on which SELECT is held down from power-on.\<close>

definition heldAtBootHw :: hardware where
  "heldAtBootHw = quietHw\<lparr>digitalRead := (\<lambda>p t. p \<noteq> BTN_SEL_PIN)\<rparr>"

subsection \<open>Counting polls and timeouts\<close>

text \<open>
  The number of \<open>WiFi.status()\<close> queries, and of "Timeout" result screens, among the
  recorded effects.
\<close>

definition pollsIn :: "effect list \<Rightarrow> nat" where
  "pollsIn es = count_list es WiFiStatus"

definition timeoutsIn :: "effect list \<Rightarrow> nat" where
  "timeoutsIn es = count_list es (DrawResult False ''Timeout'')"

text \<open>
  A connection attempt started at 1000 ms, seen at 1100 ms and, timed out, at 21001 ms;
  hardware whose radio reports a link at once.
\<close>

definition connectingState :: app where
  "connectingState =
     menuState\<lparr>now := 1100, currentScreen := SCREEN_WIFI_CONNECTING,
                wifiConnectState := WFC_CONNECTING, wifiConnectStart := 1000,
                lastUiRefresh := 1000, manualSSID := ''home'', manualPassword := ''pw''\<rparr>"

definition linkedHw :: hardware where
  "linkedHw = quietHw\<lparr>wifiLinked := (\<lambda>t. True)\<rparr>"

definition timedOutState :: app where
  "timedOutState = connectingState\<lparr>now := 21001\<rparr>"

text \<open>The BACK press edge is reported in the tick that starts in state \<open>s\<close>.\<close>

definition backEdgeThisTick :: "hardware \<Rightarrow> app \<Rightarrow> bool" where
  "backEdgeThisTick hw s = fst (pressedEdge (btnBack (updateButtons hw s)))"

subsection \<open>Holding a button on the keyboard screen\<close>

text \<open>One pass of the body of a busy-wait loop: \<open>delay(10); updateButtons();\<close>.\<close>

definition waitStep :: "hardware \<Rightarrow> app \<Rightarrow> app" where
  "waitStep hw s = updateButtons hw (delay 10 s)"

text \<open>
  The buffer being edited, the other buffer, and the maximum length of the buffer being
  edited (32 for the network name, 64 for the secret).
\<close>

definition activeBuffer :: "app \<Rightarrow> string" where
  "activeBuffer s = (if editingSSID s then manualSSID s else manualPassword s)"

definition idleBuffer :: "app \<Rightarrow> string" where
  "idleBuffer s = (if editingSSID s then manualPassword s else manualSSID s)"


text \<open>
  Concrete inputs. A button whose press was committed at time \<open>t\<close> and whose edge has
  been consumed. The keyboard screen at 2205 ms with the secret "pw" being edited, the
  cursor on "b", and SELECT stable-pressed since 1000 ms, so that this is the first tick
  at which the hold exceeds the long-press threshold; the same with BACK held instead,
  with a full network-name buffer being edited, and with both buttons held. Hardware on
  which SELECT and BACK are held down until 7000 ms, five times the threshold after the
  press, and released from then on.
\<close>

definition heldBtn :: "nat \<Rightarrow> 32 word \<Rightarrow> Btn" where
  "heldBtn p t =
     \<lparr>pin = p, stable = LOW, lastRaw = LOW, lastChange = t - 40, pressedAt = t,
      prevStable = LOW, toggles = 1\<rparr>"

definition holdSelState :: app where
  "holdSelState =
     menuState\<lparr>now := 2205, currentScreen := SCREEN_WIFI_KEYBOARD, editingSSID := False,
                manualSSID := ''home'', manualPassword := ''pw'', kbRow := 0, kbCol := 1,
                btnSel := heldBtn BTN_SEL_PIN 1000, lastUiRefresh := 2197\<rparr>"

definition holdBackState :: app where
  "holdBackState = holdSelState\<lparr>btnSel := initB BTN_SEL_PIN HIGH 0,
                                 btnBack := heldBtn BTN_BACK_PIN 1000\<rparr>"

definition fullState :: app where
  "fullState = holdSelState\<lparr>editingSSID := True, manualSSID := replicate 32 (CHR ''x'')\<rparr>"

definition bothHeldState :: app where
  "bothHeldState = holdSelState\<lparr>btnBack := heldBtn BTN_BACK_PIN 1000\<rparr>"

definition heldHw :: hardware where
  "heldHw = quietHw\<lparr>digitalRead :=
              (\<lambda>p t. (p \<noteq> BTN_SEL_PIN \<and> p \<noteq> BTN_BACK_PIN) \<or> t \<ge> 7000)\<rparr>"






















text \<open>
  Both buttons held for exactly the threshold at the start of a pass (2200 ms) that
  takes 1 ms to reach the clock reading of line 555.
\<close>

definition raceState :: app where
  "raceState = bothHeldState\<lparr>now := 2200\<rparr>"

definition raceHw :: hardware where
  "raceHw = heldHw\<lparr>lapse := (\<lambda>l t. if l = 555 then 1 else 0)\<rparr>"

text \<open>The pin numbers of the four buttons agree in two states.\<close>

definition samePins :: "app \<Rightarrow> app \<Rightarrow> bool" where
  "samePins s s' =
     (pin (btnUp s') = pin (btnUp s) \<and> pin (btnDown s') = pin (btnDown s)
      \<and> pin (btnSel s') = pin (btnSel s) \<and> pin (btnBack s') = pin (btnBack s))"

section \<open>Properties\<close>

subsection \<open>Renderers and concrete states\<close>

lemmas show_defs = showMenu_def showLocalWeather_def showAPISummaryWeather_def
  showGeolocation_def showWiFiScan_def showWiFiPasswordEntry_def showWiFiManualSetup_def
  showKeyboard_def showInfo_def showWiFiConnectResult_def emit_def

lemma scanState_facts:
  "currentScreen scanState = SCREEN_WIFI_SCAN" "scannedCount scanState = 2"
  "wifiListIndex scanState = 0" "manualPassword scanState = ''old secret''"
  "scannedSSIDs scanState ! 0 = ''home''" "kbRow scanState = 2" "kbCol scanState = 7"
  by (simp_all add: scanState_def menuState_def quietHw_def onSelEdge_def menuDispatch_def
      startWifiScanAndShow_def delay_def show_defs Let_def nth_append)

subsection \<open>What the busy-wait loop changes\<close>

lemma ocb_refl: "onlyClockAndButtons s s" by (simp add: onlyClockAndButtons_def)

lemma ocb_updateButtons: "onlyClockAndButtons s (updateButtons hw s)"
  by (simp add: onlyClockAndButtons_def updateButtons_def Let_def)

lemma ocb_delay: "onlyClockAndButtons s (delay n s)"
  by (simp add: onlyClockAndButtons_def delay_def)

lemma ocb_trans: "onlyClockAndButtons a b \<Longrightarrow> onlyClockAndButtons b c \<Longrightarrow> onlyClockAndButtons a c"
  by (simp add: onlyClockAndButtons_def)

lemma waitRelease_frame: "waitRelease sel hw s = Some s' \<Longrightarrow> onlyClockAndButtons s s'"
proof (erule waitRelease.raw_induct[rotated], goal_cases)
  case (1 w sel hw s s')
  show ?case
  proof (cases "isPressed (sel s)")
    case True
    with 1(2) have "w sel hw (updateButtons hw (delay 10 s)) = Some s'" by simp
    then have "onlyClockAndButtons (updateButtons hw (delay 10 s)) s'" by (rule 1(1))
    with ocb_trans[OF ocb_delay ocb_updateButtons] show ?thesis by (rule ocb_trans)
  next
    case False
    with 1(2) show ?thesis by (simp add: ocb_refl)
  qed
qed

lemma waitRelease_released: "waitRelease sel hw s = Some s' \<Longrightarrow> \<not> isPressed (sel s')"
proof (erule waitRelease.raw_induct[rotated], goal_cases)
  case (1 w sel hw s s')
  then show ?case by (cases "isPressed (sel s)") auto
qed

subsection \<open>Menu dispatch\<close>

text \<open>
  Claim C2. The menu shows five items and SELECT should open the screen of the
  highlighted one; the fifth item, "Info / About" (index 4), should open the Info
  screen. In the sketch the \<open>switch\<close> sends index 4 to the manual credential setup and
  keeps the Info screen for index 5, which \<open>menuIndex\<close> never takes: SELECT on
  "Info / About" opens the manual setup screen.
\<close>

theorem menu_info_item_opens_manual_setup:
  "MENU_ITEMS ! 4 = ''Info / About''
   \<and> currentScreen (onSelEdge hw (s\<lparr>currentScreen := SCREEN_MENU, menuIndex := 4\<rparr>))
       = SCREEN_WIFI_MANUAL_SETUP"
  by (simp add: MENU_ITEMS_def onSelEdge_def menuDispatch_def show_defs)

subsection \<open>Opening the keyboard from the scan list\<close>

text \<open>
  Claim C10. A short SELECT on the network scan screen with at least one scan result
  opens the keyboard, copies the highlighted entry into the network-name buffer and
  makes the secret the active field; it also empties the secret buffer and puts the
  keyboard cursor on row 0, column 0.
\<close>

theorem scan_select_resets_secret_and_cursor:
  assumes "currentScreen s = SCREEN_WIFI_SCAN" and "scannedCount s > 0"
  shows "currentScreen (onSelEdge hw s) = SCREEN_WIFI_KEYBOARD
         \<and> manualSSID (onSelEdge hw s) = scannedSSIDs s ! nat (wifiListIndex s)
         \<and> editingSSID (onSelEdge hw s) = False
         \<and> manualPassword (onSelEdge hw s) = []
         \<and> kbRow (onSelEdge hw s) = 0 \<and> kbCol (onSelEdge hw s) = 0"
  using assms by (simp add: onSelEdge_def show_defs)

theorem scan_select_resets_witness:
  "currentScreen scanState = SCREEN_WIFI_SCAN \<and> scannedCount scanState > 0
   \<and> manualPassword scanState = ''old secret''
   \<and> currentScreen (onSelEdge quietHw scanState) = SCREEN_WIFI_KEYBOARD
   \<and> manualSSID (onSelEdge quietHw scanState) = ''home''
   \<and> manualPassword (onSelEdge quietHw scanState) = []
   \<and> kbRow (onSelEdge quietHw scanState) = 0 \<and> kbCol (onSelEdge quietHw scanState) = 0"
  using scan_select_resets_secret_and_cursor [of scanState quietHw]
  by (simp add: scanState_facts)

subsection \<open>The keyboard cursor\<close>

lemma cig_frame: "onlyClockAndButtons s s' \<Longrightarrow> cursorInGrid s' = cursorInGrid s"
  by (simp add: onlyClockAndButtons_def cursorInGrid_def)

lemma cig_onUpEdge: "cursorInGrid s \<Longrightarrow> cursorInGrid (onUpEdge s)"
  by (auto simp: onUpEdge_def cursorInGrid_def show_defs KEYBOARD_ROWS_def)

lemma cig_onDownEdge: "cursorInGrid s \<Longrightarrow> cursorInGrid (onDownEdge s)"
  by (auto simp: onDownEdge_def cursorInGrid_def show_defs KEYBOARD_ROWS_def)

lemma cig_startWifiScanAndShow: "cursorInGrid (startWifiScanAndShow hw s) = cursorInGrid s"
  by (simp add: startWifiScanAndShow_def cursorInGrid_def show_defs delay_def Let_def)

lemma cig_updates [simp]:
  "cursorInGrid (s\<lparr>currentScreen := c\<rparr>) = cursorInGrid s"
  "cursorInGrid (s\<lparr>previousScreen := c\<rparr>) = cursorInGrid s"
  "cursorInGrid (s\<lparr>localWeatherInitialized := f\<rparr>) = cursorInGrid s"
  "cursorInGrid (s\<lparr>editingSSID := f\<rparr>) = cursorInGrid s"
  "cursorInGrid (s\<lparr>effects := es\<rparr>) = cursorInGrid s"
  "cursorInGrid (s\<lparr>localWeatherLastUpdate := t\<rparr>) = cursorInGrid s"
  "cursorInGrid (s\<lparr>lastUiRefresh := t\<rparr>) = cursorInGrid s"
  "cursorInGrid (s\<lparr>wifiConnectState := w\<rparr>) = cursorInGrid s"
  "cursorInGrid (s\<lparr>wifiConnected := f\<rparr>) = cursorInGrid s"
  "cursorInGrid (s\<lparr>wifiConnectStart := t\<rparr>) = cursorInGrid s"
  "cursorInGrid (s\<lparr>manualSSID := x\<rparr>) = cursorInGrid s"
  "cursorInGrid (s\<lparr>manualPassword := x\<rparr>) = cursorInGrid s"
  "cursorInGrid (s\<lparr>preferences := m\<rparr>) = cursorInGrid s"
  "cursorInGrid (s\<lparr>now := n\<rparr>) = cursorInGrid s"
  by (simp_all add: cursorInGrid_def)

lemma cig_menuDispatch: "cursorInGrid (menuDispatch hw s) = cursorInGrid s"
  by (simp add: menuDispatch_def cig_startWifiScanAndShow show_defs Let_def)

lemma cig_onSelEdge: "cursorInGrid s \<Longrightarrow> cursorInGrid (onSelEdge hw s)"
  unfolding onSelEdge_def
  by (simp add: cig_menuDispatch show_defs)
     (auto simp: cursorInGrid_def KEYBOARD_ROWS_def KEYBOARD_COLS_def)

lemma cig_onBackEdge: "cursorInGrid s \<Longrightarrow> cursorInGrid (onBackEdge s)"
  unfolding onBackEdge_def
  by (simp add: show_defs) (auto simp: cursorInGrid_def KEYBOARD_COLS_def)

lemma cig_btn_update [simp]:
  "cursorInGrid (s\<lparr>btnUp := b\<rparr>) = cursorInGrid s"
  "cursorInGrid (s\<lparr>btnDown := b\<rparr>) = cursorInGrid s"
  "cursorInGrid (s\<lparr>btnSel := b\<rparr>) = cursorInGrid s"
  "cursorInGrid (s\<lparr>btnBack := b\<rparr>) = cursorInGrid s"
  by (simp_all add: cursorInGrid_def)

lemma cig_edgesPhase: "cursorInGrid s \<Longrightarrow> cursorInGrid (edgesPhase hw s)"
  by (simp add: edgesPhase_def upPhase_def downPhase_def selPhase_def backPhase_def Let_def
      cig_onUpEdge cig_onDownEdge cig_onSelEdge cig_onBackEdge cig_frame[OF ocb_updateButtons])


lemma cig_insertHighlighted: "cursorInGrid (insertHighlighted s) = cursorInGrid s"
  by (simp add: insertHighlighted_def Let_def)

lemma cig_deleteLast: "cursorInGrid (deleteLast s) = cursorInGrid s"
  by (simp add: deleteLast_def)

lemma cig_showKeyboard: "cursorInGrid (showKeyboard s) = cursorInGrid s"
  by (simp add: show_defs)

lemma cig_waitRelease: "waitRelease sel hw s = Some s' \<Longrightarrow> cursorInGrid s' = cursorInGrid s"
  by (rule cig_frame) (rule waitRelease_frame)

lemma cig_kbSelLong:
  assumes "kbSelLong hw s = Some s'" shows "cursorInGrid s' = cursorInGrid s"
proof (cases "longHeld s (btnSel s)")
  case True
  with assms obtain u where u: "waitRelease btnSel hw (insertHighlighted s) = Some u"
    and s': "s' = showKeyboard u"
    by (auto simp: kbSelLong_def)
  from cig_waitRelease[OF u] s' show ?thesis
    by (simp add: cig_showKeyboard cig_insertHighlighted)
next
  case False
  with assms show ?thesis by (simp add: kbSelLong_def)
qed

lemma cig_kbBackLong:
  assumes "kbBackLong hw s = Some s'" shows "cursorInGrid s' = cursorInGrid s"
proof (cases "longHeld s (btnBack s)")
  case True
  with assms obtain u where u: "waitRelease btnBack hw (deleteLast s) = Some u"
    and s': "s' = showKeyboard u"
    by (auto simp: kbBackLong_def)
  from cig_waitRelease[OF u] s' show ?thesis
    by (simp add: cig_showKeyboard cig_deleteLast)
next
  case False
  with assms show ?thesis by (simp add: kbBackLong_def)
qed

lemma cig_startWiFiConnect: "cursorInGrid (startWiFiConnect a b s) = cursorInGrid s"
  by (simp add: startWiFiConnect_def Let_def show_defs delay_def putString_def)

lemma cig_kbConfirm: "cursorInGrid (kbConfirm hw s) = cursorInGrid s"
  by (simp add: kbConfirm_def Let_def cig_startWiFiConnect delay_def putString_def elapse_def)

lemma cig_kbLongPress:
  assumes "kbLongPress hw s = Some s'" shows "cursorInGrid s' = cursorInGrid s"
proof (cases "currentScreen s = SCREEN_WIFI_KEYBOARD")
  case True
  with assms obtain s1 s2 where 1: "kbSelLong hw s = Some s1"
    and 2: "kbBackLong hw (elapse 543 hw s1) = Some s2" and 3: "s' = kbConfirm hw s2"
    by (auto simp: kbLongPress_def split: option.splits)
  from cig_kbSelLong[OF 1] cig_kbBackLong[OF 2] 3 show ?thesis
    by (simp add: cig_kbConfirm elapse_def delay_def)
next
  case False
  with assms show ?thesis by (simp add: kbLongPress_def)
qed

lemma cig_manualLongPress:
  assumes "manualLongPress hw s = Some s'" and "cursorInGrid s" shows "cursorInGrid s'"
proof (cases "currentScreen s = SCREEN_WIFI_MANUAL_SETUP \<and> longHeld s (btnSel s)")
  case True
  with assms(1) have "waitRelease btnSel hw
      (showKeyboard (s\<lparr>currentScreen := SCREEN_WIFI_KEYBOARD, kbRow := 0, kbCol := 0\<rparr>)) = Some s'"
    by (simp add: manualLongPress_def)
  from cig_waitRelease[OF this] show ?thesis
    by (simp add: cig_showKeyboard) (simp add: cursorInGrid_def KEYBOARD_ROWS_def KEYBOARD_COLS_def)
next
  case False
  with assms show ?thesis by (auto simp: manualLongPress_def split: if_splits)
qed

lemma cig_periodicRefresh: "cursorInGrid (periodicRefresh hw s) = cursorInGrid s"
  by (simp add: periodicRefresh_def pollWiFi_def Let_def show_defs)

lemma cig_loop:
  assumes "loop hw s = Some s'" and "cursorInGrid s" shows "cursorInGrid s'"
proof -
  from assms(1) obtain s1 s2 where 1: "kbLongPress hw (edgesPhase hw s) = Some s1"
    and 2: "manualLongPress hw s1 = Some s2" and 3: "s' = delay 8 (periodicRefresh hw s2)"
    by (auto simp: loop_def split: option.splits)
  have "cursorInGrid s1" using cig_kbLongPress[OF 1] cig_edgesPhase[OF assms(2)] by simp
  then have "cursorInGrid s2" using 2 by (rule cig_manualLongPress[rotated])
  then show ?thesis using 3 by (simp add: delay_def cig_periodicRefresh)
qed

lemma loop_kbCorner: "\<exists>s'. loop quietHw kbCorner = Some s'"
  by (simp add: loop_def kbCorner_def edgesPhase_def upPhase_def downPhase_def selPhase_def
      backPhase_def kbLongPress_def kbSelLong_def kbBackLong_def kbConfirm_def longHeld_def
      isPressed_def manualLongPress_def pressedEdge_def elapse_def delay_def
      updateButtons_def quietHw_def menuState_def initB_def updateOne_def millis_def
      DEBOUNCE_MS_def Let_def)

text \<open>
  Claim C8. The keyboard cursor stays inside the 6 by 10 grid: from a position inside
  the grid, UP and DOWN move the row by one and stop at row 0 and row 5, short BACK and
  short SELECT move the column by one and stop at column 0 and column 9, nothing wraps
  to the opposite edge, and a whole tick of \<open>loop\<close>, on any screen, leaves the cursor
  inside the grid.
\<close>

theorem keyboard_cursor_stays_in_grid:
  assumes "cursorInGrid s"
  shows "(currentScreen s = SCREEN_WIFI_KEYBOARD \<longrightarrow>
           kbRow (onUpEdge s) = (if kbRow s = 0 then 0 else kbRow s - 1)
           \<and> kbCol (onUpEdge s) = kbCol s
           \<and> kbRow (onDownEdge s)
               = (if kbRow s = KEYBOARD_ROWS - 1 then KEYBOARD_ROWS - 1 else kbRow s + 1)
           \<and> kbCol (onDownEdge s) = kbCol s
           \<and> kbCol (onBackEdge s) = (if kbCol s = 0 then 0 else kbCol s - 1)
           \<and> kbRow (onBackEdge s) = kbRow s
           \<and> kbCol (onSelEdge hw s)
               = (if kbCol s = KEYBOARD_COLS - 1 then KEYBOARD_COLS - 1 else kbCol s + 1)
           \<and> kbRow (onSelEdge hw s) = kbRow s)
         \<and> cursorInGrid (onUpEdge s) \<and> cursorInGrid (onDownEdge s)
         \<and> cursorInGrid (onSelEdge hw s) \<and> cursorInGrid (onBackEdge s)
         \<and> (\<forall>s'. loop hw s = Some s' \<longrightarrow> cursorInGrid s')"
proof -
  have "currentScreen s = SCREEN_WIFI_KEYBOARD \<longrightarrow>
           kbRow (onUpEdge s) = (if kbRow s = 0 then 0 else kbRow s - 1)
           \<and> kbCol (onUpEdge s) = kbCol s
           \<and> kbRow (onDownEdge s)
               = (if kbRow s = KEYBOARD_ROWS - 1 then KEYBOARD_ROWS - 1 else kbRow s + 1)
           \<and> kbCol (onDownEdge s) = kbCol s
           \<and> kbCol (onBackEdge s) = (if kbCol s = 0 then 0 else kbCol s - 1)
           \<and> kbRow (onBackEdge s) = kbRow s
           \<and> kbCol (onSelEdge hw s)
               = (if kbCol s = KEYBOARD_COLS - 1 then KEYBOARD_COLS - 1 else kbCol s + 1)
           \<and> kbRow (onSelEdge hw s) = kbRow s"
    using assms
    by (auto simp: onUpEdge_def onDownEdge_def onSelEdge_def onBackEdge_def show_defs
        cursorInGrid_def KEYBOARD_ROWS_def KEYBOARD_COLS_def)
  moreover have "\<forall>s'. loop hw s = Some s' \<longrightarrow> cursorInGrid s'"
    using assms cig_loop by blast
  ultimately show ?thesis
    using assms cig_onUpEdge cig_onDownEdge cig_onSelEdge cig_onBackEdge by blast
qed


theorem keyboard_cursor_witness:
  "cursorInGrid kbCorner \<and> currentScreen kbCorner = SCREEN_WIFI_KEYBOARD
   \<and> kbRow (onDownEdge kbCorner) = 5 \<and> kbCol (onSelEdge quietHw kbCorner) = 9
   \<and> kbRow (onUpEdge kbCorner) = 4 \<and> kbCol (onBackEdge kbCorner) = 8
   \<and> (\<exists>s'. loop quietHw kbCorner = Some s' \<and> cursorInGrid s')"
proof -
  have c: "cursorInGrid kbCorner"
    by (simp add: cursorInGrid_def kbCorner_def KEYBOARD_ROWS_def KEYBOARD_COLS_def)
  have k: "currentScreen kbCorner = SCREEN_WIFI_KEYBOARD" "kbRow kbCorner = 5" "kbCol kbCorner = 9"
    by (simp_all add: kbCorner_def)
  from keyboard_cursor_stays_in_grid [OF c, of quietHw] k loop_kbCorner c show ?thesis
    by (auto simp: KEYBOARD_ROWS_def KEYBOARD_COLS_def)
qed

subsection \<open>Leaf screens\<close>

text \<open>
  Claim C5, as the sketch has it. On the local weather, API weather, geolocation, info
  and connection result screens a short SELECT and a short BACK both lead to the menu.
  On the network scan screen a short BACK leads to the menu, while a short SELECT opens
  the keyboard when there is at least one scan entry and stays on the scan screen
  otherwise.
\<close>

theorem leaf_screens_return_to_menu:
  "(currentScreen s \<in> {SCREEN_LOCAL_WEATHER, SCREEN_API_WEATHER, SCREEN_GEOLOCATION,
                         SCREEN_INFO, SCREEN_WIFI_RESULT}
      \<longrightarrow> currentScreen (onSelEdge hw s) = SCREEN_MENU
          \<and> currentScreen (onBackEdge s) = SCREEN_MENU)
   \<and> (currentScreen s = SCREEN_WIFI_SCAN
      \<longrightarrow> currentScreen (onBackEdge s) = SCREEN_MENU
          \<and> currentScreen (onSelEdge hw s)
              = (if scannedCount s > 0 then SCREEN_WIFI_KEYBOARD else SCREEN_WIFI_SCAN))"
  by (auto simp: onSelEdge_def onBackEdge_def show_defs)

theorem leaf_screens_witness:
  "currentScreen (onSelEdge quietHw (menuState\<lparr>currentScreen := SCREEN_WIFI_RESULT\<rparr>)) = SCREEN_MENU
   \<and> currentScreen (onBackEdge (menuState\<lparr>currentScreen := SCREEN_WIFI_RESULT\<rparr>)) = SCREEN_MENU
   \<and> currentScreen scanState = SCREEN_WIFI_SCAN
   \<and> currentScreen (onBackEdge scanState) = SCREEN_MENU
   \<and> currentScreen (onSelEdge quietHw scanState) = SCREEN_WIFI_KEYBOARD"
  using leaf_screens_return_to_menu [of "menuState\<lparr>currentScreen := SCREEN_WIFI_RESULT\<rparr>" quietHw]
    leaf_screens_return_to_menu [of scanState quietHw]
  by (simp add: scanState_facts)

text \<open>
  The claim as stated fails on the scan screen: entered from the menu with two networks
  found, a short SELECT leads to the keyboard, not to the menu.
\<close>

theorem scan_select_leaves_to_keyboard_counterexample:
  "currentScreen scanState = SCREEN_WIFI_SCAN
   \<and> currentScreen (onSelEdge quietHw scanState) = SCREEN_WIFI_KEYBOARD
   \<and> currentScreen (onSelEdge quietHw scanState) \<noteq> SCREEN_MENU"
  by (simp add: scanState_facts onSelEdge_def show_defs)

subsection \<open>Debouncing and press edges\<close>

lemma word_diff_gt:
  assumes "t0 \<le> t" and "(of_nat t - of_nat t0 :: 32 word) > n"
  shows "unat n < t - t0"
proof -
  have "(of_nat t - of_nat t0 :: 32 word) = of_nat (t - t0)"
    using assms(1) by simp
  then have "unat (of_nat t - of_nat t0 :: 32 word) \<le> t - t0"
    by (simp add: unat_of_nat)
  moreover from assms(2) have "unat n < unat (of_nat t - of_nat t0 :: 32 word)"
    by (simp add: word_less_nat_alt)
  ultimately show ?thesis by linarith
qed

lemma pending_le_1: "pending b \<le> 1"
  by (simp add: pending_def)

lemma pending_pressedEdge:
  "pending (snd (pressedEdge b)) = 0" "(if fst (pressedEdge b) then 1 else 0) = pending b"
  "reserve (snd (pressedEdge b)) st cnt = reserve b st cnt"
  by (simp_all add: pending_def reserve_def pressedEdge_def)

lemma pending_releasedEdge:
  "pending (snd (releasedEdge b)) = 0"
  "reserve (snd (releasedEdge b)) st cnt = reserve b st cnt"
  by (simp_all add: pending_def reserve_def releasedEdge_def)

lemma pending_sample_high: "pending (updateOne t HIGH b) \<le> pending b"
  by (simp add: pending_def updateOne_def)

lemma pending_sample_first_low:
  "lastRaw b = HIGH \<Longrightarrow> pending (updateOne t LOW b) = pending b"
  by (simp add: pending_def updateOne_def)

lemma sample_low_commit:
  assumes "lastRaw b = LOW" and "t - lastChange b > DEBOUNCE_MS" and "stable b = HIGH"
  shows "pending b = 0" and "reserve (updateOne t LOW b) st cnt = 0"
  using assms by (simp_all add: pending_def reserve_def updateOne_def)

lemma sample_low_idle:
  assumes "lastRaw b = LOW" and "\<not> (t - lastChange b > DEBOUNCE_MS \<and> stable b = HIGH)"
  shows "updateOne t LOW b = b"
  using assms by (auto simp: updateOne_def)

lemma reserve_le:
  "reserve b st True \<le> 1" "reserve b st False = 0" "reserve b None cnt = 0"
  by (simp_all add: reserve_def)

lemma reserve_counted_high: "stable b = HIGH \<Longrightarrow> reserve b (Some t0) True = 1"
  by (simp add: reserve_def)

lemma edgeCount_credit:
  "tracks b st tp \<Longrightarrow> chronological tp cs \<Longrightarrow>
   edgeCount b cs \<le> longRuns st cnt cs + pending b + reserve b st cnt"
proof (induction cs arbitrary: b st cnt tp)
  case Nil
  then show ?case by simp
next
  case (Cons c cs)
  show ?case
  proof (cases c)
    case PressedEdge
    have "tracks (snd (pressedEdge b)) st tp"
      using Cons.prems(1) by (simp add: tracks_def pressedEdge_def split: option.splits)
    moreover have "chronological tp cs" using Cons.prems(2) PressedEdge by simp
    ultimately have "edgeCount (snd (pressedEdge b)) cs
        \<le> longRuns st cnt cs + pending (snd (pressedEdge b)) + reserve (snd (pressedEdge b)) st cnt"
      by (rule Cons.IH)
    then show ?thesis
      using PressedEdge pending_pressedEdge(2)[of b] by (simp add: pending_pressedEdge(1,3))
  next
    case ReleasedEdge
    have "tracks (snd (releasedEdge b)) st tp"
      using Cons.prems(1) by (simp add: tracks_def releasedEdge_def split: option.splits)
    moreover have "chronological tp cs" using Cons.prems(2) ReleasedEdge by simp
    ultimately have "edgeCount (snd (releasedEdge b)) cs
        \<le> longRuns st cnt cs + pending (snd (releasedEdge b)) + reserve (snd (releasedEdge b)) st cnt"
      by (rule Cons.IH)
    then show ?thesis
      using ReleasedEdge by (simp add: pending_releasedEdge)
  next
    case (Sample t raw)
    with Cons.prems(2) have tp: "tp \<le> t" and ch: "chronological t cs" by simp_all
    define b' where "b' = updateOne (of_nat t) raw b"
    have ec: "edgeCount b (c # cs) = edgeCount b' cs"
      using Sample by (simp add: b'_def)
    show ?thesis
    proof (cases raw)
      case True
      have "tracks b' None t"
        using True by (simp add: b'_def tracks_def updateOne_def)
      from Cons.IH[OF this ch, of False]
      have "edgeCount b' cs \<le> longRuns None False cs + pending b'"
        by (simp add: reserve_le)
      moreover have "pending b' \<le> pending b"
        using True pending_sample_high by (simp add: b'_def)
      moreover have "longRuns st cnt (c # cs) = longRuns None False cs"
        using Sample True by simp
      ultimately show ?thesis using ec by simp
    next
      case False
      show ?thesis
      proof (cases st)
        case None
        with Cons.prems(1) have lr: "lastRaw b = HIGH" by (simp add: tracks_def)
        then have "tracks b' (Some t) t"
          using False by (simp add: b'_def tracks_def updateOne_def)
        from Cons.IH[OF this ch, of False]
        have "edgeCount b' cs \<le> longRuns (Some t) False cs + pending b'"
          by (simp add: reserve_le)
        moreover have "pending b' = pending b"
          using False lr pending_sample_first_low by (simp add: b'_def)
        moreover have "longRuns st cnt (c # cs) = longRuns (Some t) False cs"
          using Sample False None by simp
        ultimately show ?thesis using ec by simp
      next
        case (Some t0)
        with Cons.prems(1) have lr: "lastRaw b = LOW" and lc: "lastChange b = of_nat t0"
          and le: "t0 \<le> tp" by (simp_all add: tracks_def)
        have tr: "tracks b' (Some t0) t"
          using lr lc le tp False by (simp add: b'_def tracks_def updateOne_def)
        note IH = Cons.IH[OF tr ch]
        show ?thesis
        proof (cases "(of_nat t - lastChange b :: 32 word) > DEBOUNCE_MS \<and> stable b = HIGH")
          case True
          then have long: "30 < t - t0"
            using word_diff_gt[of t0 t DEBOUNCE_MS] lc le tp by (simp add: DEBOUNCE_MS_def)
          have p0: "pending b = 0" and r0: "reserve b' (Some t0) True = 0"
            using sample_low_commit[OF lr, of "of_nat t"] True False by (simp_all add: b'_def)
          from IH[of True] r0 pending_le_1[of b']
          have *: "edgeCount b' cs \<le> longRuns (Some t0) True cs + 1" by simp
          show ?thesis
          proof (cases cnt)
            case True
            then have "longRuns st cnt (c # cs) = longRuns (Some t0) True cs"
              using Sample \<open>\<not> raw\<close> Some by simp
            moreover have "reserve b st cnt = 1"
              using True \<open>_ \<and> stable b = HIGH\<close> Some reserve_counted_high by simp
            ultimately show ?thesis using * ec by simp
          next
            case False
            then have "longRuns st cnt (c # cs) = 1 + longRuns (Some t0) True cs"
              using Sample \<open>\<not> raw\<close> Some long by simp
            then show ?thesis using * ec by simp
          qed
        next
          case False
          then have same: "b' = b"
            using lr sample_low_idle[of b "of_nat t"] \<open>\<not> raw\<close> by (simp add: b'_def)
          show ?thesis
          proof (cases "\<not> cnt \<and> t - t0 \<ge> 30")
            case True
            then have "longRuns st cnt (c # cs) = 1 + longRuns (Some t0) True cs"
              using Sample \<open>\<not> raw\<close> Some by simp
            moreover from IH[of True] same
            have "edgeCount b cs \<le> longRuns (Some t0) True cs + pending b + 1"
              using reserve_le(1)[of b "Some t0"] by simp
            ultimately show ?thesis using ec same by simp
          next
            case False
            then have "longRuns st cnt (c # cs) = longRuns (Some t0) cnt cs"
              using Sample \<open>\<not> raw\<close> Some by auto
            with IH[of cnt] same ec Some show ?thesis by simp
          qed
        qed
      qed
    qed
  qed
qed

lemma edgeCap_sample_low: "edgeCap (updateOne t LOW b) \<le> edgeCap b"
  by (simp add: edgeCap_def updateOne_def)

lemma edgeCap_pressedEdge:
  "(if fst (pressedEdge b) then 1 else 0) + edgeCap (snd (pressedEdge b)) \<le> edgeCap b"
  by (simp add: edgeCap_def pressedEdge_def)

lemma edgeCap_releasedEdge: "edgeCap (snd (releasedEdge b)) \<le> edgeCap b"
  by (simp add: edgeCap_def releasedEdge_def)

lemma edgeCount_lowRun: "lowRun cs \<Longrightarrow> edgeCount b cs \<le> edgeCap b"
proof (induction cs arbitrary: b)
  case Nil
  then show ?case by simp
next
  case (Cons c cs)
  show ?case
  proof (cases c)
    case (Sample t raw)
    with Cons.prems have "lowRun cs" "raw = LOW" by simp_all
    from Cons.IH[OF this(1), of "updateOne (of_nat t) LOW b"] Sample this(2)
      edgeCap_sample_low[of "of_nat t" b]
    show ?thesis by simp
  next
    case PressedEdge
    with Cons.prems have "lowRun cs" by simp
    from Cons.IH[OF this, of "snd (pressedEdge b)"] PressedEdge edgeCap_pressedEdge[of b]
    show ?thesis by simp
  next
    case ReleasedEdge
    with Cons.prems have "lowRun cs" by simp
    from Cons.IH[OF this, of "snd (releasedEdge b)"] ReleasedEdge edgeCap_releasedEdge[of b]
    show ?thesis by simp
  qed
qed

text \<open>
  Claim C7. For every sequence of raw level samples of one button, \<open>pressedEdge\<close> returns
  true at most once per contiguous low run lasting at least the debounce window, and
  never for a low run shorter than the window. Two statements, for any interleaving of
  samples and edge queries: inside one contiguous low run at most one \<open>pressedEdge\<close> call
  returns true, whatever the state of the button at the start of the run; and from
  initialisation on, the number of calls that return true is at most the number of low
  runs that last at least 30 ms, so a sequence whose low runs are all shorter yields none.
  In the regular pattern of \<open>loop\<close>, a sample followed by its edge query with the
  previous edge consumed, \<open>pressedEdge\<close> returns true only on a low sample whose level
  has been low and unchanged for more than 30 ms.
\<close>

theorem pressedEdge_once_per_long_low_run:
  "(lowRun cs \<longrightarrow> edgeCount b cs \<le> 1)
   \<and> (chronological t0 cs \<longrightarrow>
        edgeCount (initB p raw0 (of_nat t0)) cs
          \<le> longRuns (if raw0 = LOW then Some t0 else None) False cs)
   \<and> (prevStable b = stable b \<and> fst (pressedEdge (updateOne t raw b)) \<longrightarrow>
        raw = LOW \<and> lastRaw b = LOW \<and> t - lastChange b > DEBOUNCE_MS)"
proof -
  have "tracks (initB p raw0 (of_nat t0)) (if raw0 = LOW then Some t0 else None) t0"
    by (simp add: tracks_def initB_def)
  from edgeCount_credit[OF this, of cs False]
  have "chronological t0 cs \<longrightarrow>
        edgeCount (initB p raw0 (of_nat t0)) cs
          \<le> longRuns (if raw0 = LOW then Some t0 else None) False cs"
    by (simp add: pending_def reserve_def initB_def)
  moreover have "lowRun cs \<longrightarrow> edgeCount b cs \<le> 1"
    using edgeCount_lowRun[of cs b] by (auto simp: edgeCap_def split: if_splits)
  moreover have "prevStable b = stable b \<and> fst (pressedEdge (updateOne t raw b)) \<longrightarrow>
        raw = LOW \<and> lastRaw b = LOW \<and> t - lastChange b > DEBOUNCE_MS"
    by (auto simp: pressedEdge_def updateOne_def split: if_splits)
  ultimately show ?thesis by blast
qed


theorem pressedEdge_once_witness:
  "lowRun holdTrace \<and> chronological 0 holdTrace
   \<and> edgeCount (initB BTN_SEL_PIN HIGH (of_nat 0)) holdTrace = 1
   \<and> longRuns None False holdTrace = 1
   \<and> chronological 0 bounceTrace
   \<and> edgeCount (initB BTN_SEL_PIN HIGH (of_nat 0)) bounceTrace = 0
   \<and> longRuns None False bounceTrace = 0
   \<and> fst (pressedEdge (updateOne 45 LOW
             (btnRun (initB BTN_SEL_PIN HIGH 0) [Sample 10 LOW, PressedEdge])))
   \<and> (45 :: 32 word) - lastChange (btnRun (initB BTN_SEL_PIN HIGH 0) [Sample 10 LOW, PressedEdge])
       = 35"
  using pressedEdge_once_per_long_low_run
      [where cs = holdTrace and b = "initB BTN_SEL_PIN HIGH (of_nat 0)" and ?t0.0 = 0
         and p = BTN_SEL_PIN and ?raw0.0 = HIGH and t = 45 and raw = LOW]
    pressedEdge_once_per_long_low_run
      [where cs = bounceTrace and b = "btnRun (initB BTN_SEL_PIN HIGH 0) [Sample 10 LOW, PressedEdge]"
         and ?t0.0 = 0 and p = BTN_SEL_PIN and ?raw0.0 = HIGH and t = 45 and raw = LOW]
  by (simp add: holdTrace_def bounceTrace_def initB_def updateOne_def pressedEdge_def
      btnRun_def DEBOUNCE_MS_def)

subsection \<open>The press timestamp\<close>

lemma btnStep_pressedAt_pressed:
  "(pressedAt b \<noteq> 0 \<longrightarrow> isPressed b)
   \<Longrightarrow> pressedAt (btnStep b c) \<noteq> 0 \<longrightarrow> isPressed (btnStep b c)"
  by (cases c) (auto simp: updateOne_def pressedEdge_def releasedEdge_def isPressed_def)

lemma btnRun_pressedAt_pressed:
  "(pressedAt b \<noteq> 0 \<longrightarrow> isPressed b)
   \<Longrightarrow> pressedAt (btnRun b cs) \<noteq> 0 \<longrightarrow> isPressed (btnRun b cs)"
  unfolding btnRun_def
proof (induction cs arbitrary: b)
  case Nil
  then show ?case by simp
next
  case (Cons c cs)
  from Cons.IH[OF btnStep_pressedAt_pressed[OF Cons.prems, of c]] show ?case by simp
qed

lemma btnStep_pressedAt_iff:
  "(pressedAt b \<noteq> 0) = isPressed b \<Longrightarrow> stampsNonzero [c]
   \<Longrightarrow> (pressedAt (btnStep b c) \<noteq> 0) = isPressed (btnStep b c)"
  by (cases c) (auto simp: updateOne_def pressedEdge_def releasedEdge_def isPressed_def)

lemma stampsNonzero_Cons: "stampsNonzero (c # cs) = (stampsNonzero [c] \<and> stampsNonzero cs)"
  by (cases c) simp_all

lemma btnRun_pressedAt_iff:
  "(pressedAt b \<noteq> 0) = isPressed b \<Longrightarrow> stampsNonzero cs
   \<Longrightarrow> (pressedAt (btnRun b cs) \<noteq> 0) = isPressed (btnRun b cs)"
  unfolding btnRun_def
proof (induction cs arbitrary: b)
  case Nil
  then show ?case by simp
next
  case (Cons c cs)
  from Cons.prems(2) have 1: "stampsNonzero [c]" and 2: "stampsNonzero cs"
    using stampsNonzero_Cons[of c cs] by simp_all
  from Cons.IH[OF btnStep_pressedAt_iff[OF Cons.prems(1) 1] 2] show ?case by simp
qed

lemma btnOk_initB: "btnOk (initB p raw t)"
  by (simp add: btnOk_def initB_def)

lemma btnOk_updateOne: "btnOk b \<Longrightarrow> btnOk (updateOne t raw b)"
  by (auto simp: btnOk_def updateOne_def isPressed_def)

lemma btnOk_pressedEdge: "btnOk (snd (pressedEdge b)) = btnOk b"
  by (simp add: btnOk_def pressedEdge_def isPressed_def)

lemma btnsOk_setupButtons: "btnsOk (setupButtons hw s)"
  by (simp add: btnsOk_def setupButtons_def btnOk_initB)

lemma btnsOk_updateButtons: "btnsOk s \<Longrightarrow> btnsOk (updateButtons hw s)"
  by (simp add: btnsOk_def updateButtons_def Let_def btnOk_updateOne)

lemma btnsOk_updates [simp]:
  "btnsOk (s\<lparr>currentScreen := c\<rparr>) = btnsOk s"
  "btnsOk (s\<lparr>previousScreen := c\<rparr>) = btnsOk s"
  "btnsOk (s\<lparr>menuIndex := i\<rparr>) = btnsOk s"
  "btnsOk (s\<lparr>scannedSSIDs := xs\<rparr>) = btnsOk s"
  "btnsOk (s\<lparr>scannedCount := i\<rparr>) = btnsOk s"
  "btnsOk (s\<lparr>wifiListIndex := i\<rparr>) = btnsOk s"
  "btnsOk (s\<lparr>localWeatherInitialized := f\<rparr>) = btnsOk s"
  "btnsOk (s\<lparr>editingSSID := f\<rparr>) = btnsOk s"
  "btnsOk (s\<lparr>effects := es\<rparr>) = btnsOk s"
  "btnsOk (s\<lparr>localWeatherLastUpdate := t\<rparr>) = btnsOk s"
  "btnsOk (s\<lparr>lastUiRefresh := t\<rparr>) = btnsOk s"
  "btnsOk (s\<lparr>wifiConnectState := w\<rparr>) = btnsOk s"
  "btnsOk (s\<lparr>wifiConnected := f\<rparr>) = btnsOk s"
  "btnsOk (s\<lparr>wifiConnectStart := t\<rparr>) = btnsOk s"
  "btnsOk (s\<lparr>manualSSID := x\<rparr>) = btnsOk s"
  "btnsOk (s\<lparr>manualPassword := x\<rparr>) = btnsOk s"
  "btnsOk (s\<lparr>preferences := m\<rparr>) = btnsOk s"
  "btnsOk (s\<lparr>kbRow := i\<rparr>) = btnsOk s"
  "btnsOk (s\<lparr>kbCol := i\<rparr>) = btnsOk s"
  "btnsOk (s\<lparr>now := n\<rparr>) = btnsOk s"
  by (simp_all add: btnsOk_def)

lemma btnsOk_show [simp]:
  "btnsOk (showMenu s) = btnsOk s" "btnsOk (showLocalWeather s) = btnsOk s"
  "btnsOk (showAPISummaryWeather s) = btnsOk s" "btnsOk (showGeolocation s) = btnsOk s"
  "btnsOk (showWiFiScan s) = btnsOk s" "btnsOk (showWiFiPasswordEntry s) = btnsOk s"
  "btnsOk (showWiFiManualSetup s) = btnsOk s" "btnsOk (showKeyboard s) = btnsOk s"
  "btnsOk (showInfo s) = btnsOk s" "btnsOk (showWiFiConnectResult ok msg s) = btnsOk s"
  "btnsOk (emit e s) = btnsOk s" "btnsOk (delay n s) = btnsOk s"
  "btnsOk (putString k v s) = btnsOk s"
  by (simp_all add: show_defs Let_def delay_def putString_def)

lemma btnsOk_startWifiScanAndShow [simp]: "btnsOk (startWifiScanAndShow hw s) = btnsOk s"
  by (simp add: startWifiScanAndShow_def Let_def)

lemma btnsOk_startWiFiConnect [simp]: "btnsOk (startWiFiConnect a b s) = btnsOk s"
  by (simp add: startWiFiConnect_def Let_def)

lemma btnsOk_handlers [simp]:
  "btnsOk (onUpEdge s) = btnsOk s" "btnsOk (onDownEdge s) = btnsOk s"
  "btnsOk (onSelEdge hw s) = btnsOk s" "btnsOk (onBackEdge s) = btnsOk s"
  "btnsOk (insertHighlighted s) = btnsOk s" "btnsOk (deleteLast s) = btnsOk s"
  "btnsOk (kbConfirm hw s) = btnsOk s" "btnsOk (periodicRefresh hw s) = btnsOk s"
  "btnsOk (elapse l hw s) = btnsOk s"
  by (simp_all add: onUpEdge_def onDownEdge_def onSelEdge_def menuDispatch_def onBackEdge_def
      insertHighlighted_def deleteLast_def kbConfirm_def periodicRefresh_def pollWiFi_def Let_def
      elapse_def)

lemma btnsOk_edgesPhase: "btnsOk s \<Longrightarrow> btnsOk (edgesPhase hw s)"
proof -
  assume a: "btnsOk s"
  have pu: "btnsOk u \<Longrightarrow> btnsOk (upPhase u)" for u
    by (simp add: upPhase_def Let_def) (simp add: btnsOk_def btnOk_pressedEdge)
  have pd: "btnsOk u \<Longrightarrow> btnsOk (downPhase u)" for u
    by (simp add: downPhase_def Let_def) (simp add: btnsOk_def btnOk_pressedEdge)
  have ps: "btnsOk u \<Longrightarrow> btnsOk (selPhase hw u)" for u
    by (simp add: selPhase_def Let_def) (simp add: btnsOk_def btnOk_pressedEdge)
  have pb: "btnsOk u \<Longrightarrow> btnsOk (backPhase u)" for u
    by (simp add: backPhase_def Let_def) (simp add: btnsOk_def btnOk_pressedEdge)
  show ?thesis
    unfolding edgesPhase_def by (intro pb ps pd pu btnsOk_updateButtons a)
qed

lemma btnsOk_waitRelease: "waitRelease sel hw s = Some s' \<Longrightarrow> btnsOk s \<longrightarrow> btnsOk s'"
proof (erule waitRelease.raw_induct[rotated], goal_cases)
  case (1 w sel hw s s')
  show ?case
  proof (cases "isPressed (sel s)")
    case True
    with 1(2) have "w sel hw (updateButtons hw (delay 10 s)) = Some s'" by simp
    then have "btnsOk (updateButtons hw (delay 10 s)) \<longrightarrow> btnsOk s'" by (rule 1(1))
    then show ?thesis using btnsOk_updateButtons[of "delay 10 s" hw] by simp
  next
    case False
    with 1(2) show ?thesis by simp
  qed
qed

lemma btnsOk_loop:
  assumes "loop hw s = Some s'" and "btnsOk s" shows "btnsOk s'"
proof -
  from assms(1) obtain s1 s2 where 1: "kbLongPress hw (edgesPhase hw s) = Some s1"
    and 2: "manualLongPress hw s1 = Some s2" and 3: "s' = delay 8 (periodicRefresh hw s2)"
    by (auto simp: loop_def split: option.splits)
  have e: "btnsOk (edgesPhase hw s)" using assms(2) by (rule btnsOk_edgesPhase)
  have sl: "kbSelLong hw u = Some u' \<Longrightarrow> btnsOk u \<Longrightarrow> btnsOk u'" for u u'
    by (auto simp: kbSelLong_def split: if_splits dest!: btnsOk_waitRelease)
  have bl: "kbBackLong hw u = Some u' \<Longrightarrow> btnsOk u \<Longrightarrow> btnsOk u'" for u u'
    by (auto simp: kbBackLong_def split: if_splits dest!: btnsOk_waitRelease)
  have "btnsOk s1"
    using 1 e by (auto simp: kbLongPress_def split: if_splits option.splits dest!: sl bl)
  then have "btnsOk s2"
    using 2 by (auto simp: manualLongPress_def split: if_splits dest!: btnsOk_waitRelease)
  then show ?thesis by (simp add: 3)
qed


lemma heldThroughout_pressed: "heldThroughout b cs \<Longrightarrow> isPressed b"
  by (cases cs) simp_all

lemma heldThroughout_pressedAt:
  "heldThroughout b cs \<Longrightarrow> pressedAt (btnRun b cs) = pressedAt b \<and> isPressed (btnRun b cs)"
  unfolding btnRun_def
proof (induction cs arbitrary: b)
  case Nil
  then show ?case by simp
next
  case (Cons c cs)
  from Cons.prems have p: "isPressed b" and h: "heldThroughout (btnStep b c) cs" by simp_all
  from heldThroughout_pressed[OF h] p have "pressedAt (btnStep b c) = pressedAt b"
    by (cases c) (auto simp: updateOne_def pressedEdge_def releasedEdge_def isPressed_def
        split: if_splits)
  with Cons.IH[OF h] show ?case by simp
qed

lemma lowRun_heldThroughout: "lowRun cs \<Longrightarrow> isPressed b \<Longrightarrow> heldThroughout b cs"
proof (induction cs arbitrary: b)
  case Nil
  then show ?case by simp
next
  case (Cons c cs)
  have "lowRun cs" using Cons.prems(1) by (cases c) simp_all
  moreover have "isPressed (btnStep b c)" using Cons.prems
    by (cases c) (auto simp: updateOne_def pressedEdge_def releasedEdge_def isPressed_def)
  ultimately have "heldThroughout (btnStep b c) cs" by (rule Cons.IH)
  with Cons.prems(2) show ?case by simp
qed

text \<open>
  Claim C9, as the sketch has it. After initialisation and any sequence of calls on a
  button, a non-zero \<open>pressedAt\<close> implies that the stable level is pressed (a released
  button has \<open>pressedAt = 0\<close>). The converse, and so the equivalence of the claim, holds
  for a button that was released at initialisation as long as no sample is taken at a
  \<open>millis()\<close> reading of exactly 0. A button that was pressed at initialisation keeps
  \<open>pressedAt = 0\<close> for as long as its stable level stays pressed, that is until a release
  is committed, and its stable level stays pressed at least as long as every sample
  reads low. In the sketch as a whole, the implication holds for all four buttons after
  \<open>setupButtons\<close> and is preserved by every tick of \<open>loop\<close>.
\<close>

theorem pressedAt_nonzero_only_if_pressed:
  "(pressedAt (btnRun (initB p raw0 t0) cs) \<noteq> 0 \<longrightarrow> isPressed (btnRun (initB p raw0 t0) cs))
   \<and> (raw0 = HIGH \<and> stampsNonzero cs \<longrightarrow>
        (pressedAt (btnRun (initB p raw0 t0) cs) \<noteq> 0) = isPressed (btnRun (initB p raw0 t0) cs))
   \<and> (raw0 = LOW \<and> heldThroughout (initB p raw0 t0) cs \<longrightarrow>
        isPressed (btnRun (initB p raw0 t0) cs) \<and> pressedAt (btnRun (initB p raw0 t0) cs) = 0)
   \<and> (raw0 = LOW \<and> lowRun cs \<longrightarrow> heldThroughout (initB p raw0 t0) cs)
   \<and> btnsOk (setupButtons hw s)
   \<and> (btnsOk s \<longrightarrow> (\<forall>s'. loop hw s = Some s' \<longrightarrow> btnsOk s'))"
proof -
  have "pressedAt (initB p raw0 t0) \<noteq> 0 \<longrightarrow> isPressed (initB p raw0 t0)"
    by (simp add: initB_def)
  moreover have "raw0 = HIGH \<Longrightarrow> (pressedAt (initB p raw0 t0) \<noteq> 0) = isPressed (initB p raw0 t0)"
    by (simp add: initB_def isPressed_def)
  moreover have "raw0 = LOW \<and> heldThroughout (initB p raw0 t0) cs \<longrightarrow>
        isPressed (btnRun (initB p raw0 t0) cs) \<and> pressedAt (btnRun (initB p raw0 t0) cs) = 0"
  proof
    assume a: "raw0 = LOW \<and> heldThroughout (initB p raw0 t0) cs"
    have "pressedAt (initB p raw0 t0) = 0" by (simp add: initB_def)
    with heldThroughout_pressedAt[of "initB p raw0 t0" cs] a
    show "isPressed (btnRun (initB p raw0 t0) cs) \<and> pressedAt (btnRun (initB p raw0 t0) cs) = 0"
      by auto
  qed
  moreover have "raw0 = LOW \<and> lowRun cs \<longrightarrow> heldThroughout (initB p raw0 t0) cs"
  proof
    assume a: "raw0 = LOW \<and> lowRun cs"
    then have "isPressed (initB p raw0 t0)" by (simp add: initB_def isPressed_def)
    with a show "heldThroughout (initB p raw0 t0) cs" by (simp add: lowRun_heldThroughout)
  qed
  ultimately show ?thesis
    using btnRun_pressedAt_pressed btnRun_pressedAt_iff btnsOk_setupButtons btnsOk_loop
    by blast
qed

theorem pressedAt_witness:
  "stampsNonzero holdTrace
   \<and> isPressed (btnRun (initB BTN_SEL_PIN HIGH 0) holdTrace)
   \<and> pressedAt (btnRun (initB BTN_SEL_PIN HIGH 0) holdTrace) = 45
   \<and> \<not> isPressed (btnRun (initB BTN_SEL_PIN HIGH 0) bounceTrace)
   \<and> pressedAt (btnRun (initB BTN_SEL_PIN HIGH 0) bounceTrace) = 0
   \<and> lowRun holdTrace \<and> heldThroughout (initB BTN_SEL_PIN LOW 0) holdTrace
   \<and> isPressed (btnRun (initB BTN_SEL_PIN LOW 0) holdTrace)
   \<and> pressedAt (btnRun (initB BTN_SEL_PIN LOW 0) holdTrace) = 0
   \<and> btnsOk (setupButtons heldAtBootHw menuState)
   \<and> btnsOk kbCorner \<and> (\<exists>s'. loop quietHw kbCorner = Some s' \<and> btnsOk s')"
proof -
  have k: "btnsOk kbCorner"
    by (simp add: btnsOk_def btnOk_def kbCorner_def menuState_def initB_def)
  have l: "lowRun holdTrace" by (simp add: holdTrace_def)
  have released: "stampsNonzero holdTrace
   \<and> isPressed (btnRun (initB BTN_SEL_PIN HIGH 0) holdTrace)
   \<and> pressedAt (btnRun (initB BTN_SEL_PIN HIGH 0) holdTrace) = 45
   \<and> btnsOk (setupButtons heldAtBootHw menuState)"
    using pressedAt_nonzero_only_if_pressed [of BTN_SEL_PIN HIGH 0 holdTrace heldAtBootHw menuState]
    by (simp add: holdTrace_def btnRun_def initB_def updateOne_def
        pressedEdge_def isPressed_def DEBOUNCE_MS_def)
  have bounced: "\<not> isPressed (btnRun (initB BTN_SEL_PIN HIGH 0) bounceTrace)
   \<and> pressedAt (btnRun (initB BTN_SEL_PIN HIGH 0) bounceTrace) = 0"
    using pressedAt_nonzero_only_if_pressed [of BTN_SEL_PIN HIGH 0 bounceTrace quietHw kbCorner]
    by (simp add: bounceTrace_def btnRun_def initB_def updateOne_def
        pressedEdge_def isPressed_def DEBOUNCE_MS_def)
  have tick: "\<exists>s'. loop quietHw kbCorner = Some s' \<and> btnsOk s'"
    using k loop_kbCorner
      pressedAt_nonzero_only_if_pressed [of BTN_SEL_PIN HIGH 0 bounceTrace quietHw kbCorner]
    by blast
  have held: "heldThroughout (initB BTN_SEL_PIN LOW 0) holdTrace
   \<and> isPressed (btnRun (initB BTN_SEL_PIN LOW 0) holdTrace)
   \<and> pressedAt (btnRun (initB BTN_SEL_PIN LOW 0) holdTrace) = 0"
    using l pressedAt_nonzero_only_if_pressed [of BTN_SEL_PIN LOW 0 holdTrace quietHw kbCorner]
    by blast
  from released bounced tick k held l show ?thesis by simp
qed

text \<open>
  The claim as stated fails for a button held down at power-on: \<open>setupButtons\<close> takes the
  stable level from the raw level, pressed, and sets \<open>pressedAt\<close> to 0.
\<close>

theorem held_at_boot_counterexample:
  "isPressed (btnSel (setupButtons heldAtBootHw menuState))
   \<and> pressedAt (btnSel (setupButtons heldAtBootHw menuState)) = 0"
  by (simp add: setupButtons_def heldAtBootHw_def quietHw_def initB_def isPressed_def)

subsection \<open>The connection poll\<close>

lemma pollWiFi_waiting:
  assumes "\<not> wifiLinked hw (now s)" and "millis s - wifiConnectStart s \<le> WIFI_CONNECT_TIMEOUT"
  shows "pollWiFi hw s = emit WiFiStatus s"
  using assms by (simp add: pollWiFi_def Let_def emit_def not_less [symmetric])

lemma pollWiFi_timeout:
  assumes "\<not> wifiLinked hw (now s)" and "millis s - wifiConnectStart s > WIFI_CONNECT_TIMEOUT"
  shows "pollWiFi hw s =
           (s\<lparr>wifiConnectState := WFC_FAILED, wifiConnected := False,
              currentScreen := SCREEN_WIFI_RESULT,
              effects := effects s @ [WiFiStatus, WiFiDisconnect, DrawResult False ''Timeout'']\<rparr>)"
  using assms by (simp add: pollWiFi_def Let_def show_defs millis_def)

lemma periodicRefresh_not_connecting:
  assumes "wifiConnectState s \<noteq> WFC_CONNECTING"
  shows "wifiConnectState (periodicRefresh hw s) = wifiConnectState s"
    and "currentScreen (periodicRefresh hw s) = currentScreen s"
    and "timeoutsIn (effects (periodicRefresh hw s)) = timeoutsIn (effects s)"
    and "pollsIn (effects (periodicRefresh hw s)) = pollsIn (effects s)"
  using assms
  by (simp_all add: periodicRefresh_def Let_def show_defs timeoutsIn_def pollsIn_def)

lemma periodicRefresh_due_connecting:
  assumes "currentScreen s = SCREEN_WIFI_CONNECTING" and "wifiConnectState s = WFC_CONNECTING"
    and "millis s - lastUiRefresh s > UI_REFRESH_MS"
  shows "periodicRefresh hw s = pollWiFi hw (s\<lparr>lastUiRefresh := millis s\<rparr>)"
  using assms by (simp add: periodicRefresh_def Let_def)

lemma pollWiFi_linked:
  assumes "wifiLinked hw (now s)"
  shows "pollWiFi hw s =
           (s\<lparr>wifiConnectState := WFC_CONNECTED, wifiConnected := True,
              currentScreen := SCREEN_WIFI_RESULT,
              effects := effects s @ [WiFiStatus, WiFiLocalIP,
                                      DrawResult True (''Connected: '' @ wifiLocalIP hw)]\<rparr>)"
  using assms by (simp add: pollWiFi_def Let_def show_defs)

text \<open>
  Claim C4, as the sketch has it. While the attempt is in the Connecting state, the poll
  asks the radio first. With the radio not linked: a poll with
  \<open>millis() - wifiConnectStart\<close> not above 20000 leaves the state as it is, the status
  query being its only effect; a poll with the difference above 20000 disconnects the
  radio, sets the state to Failed and shows the result screen with "Timeout". With the
  radio linked, whatever the difference, the poll sets the state to Connected and shows
  the result screen with the address: no disconnect, no "Timeout". The periodic refresh
  runs this poll when it is due on the Connecting screen. The timeout happens once per
  attempt: it leaves the state Failed, and a periodic refresh in a state that is not
  Connecting neither changes the connection state nor shows another "Timeout".
\<close>

theorem poll_while_connecting:
  assumes "wifiConnectState s = WFC_CONNECTING"
  shows "(\<not> wifiLinked hw (now s) \<and> millis s - wifiConnectStart s \<le> WIFI_CONNECT_TIMEOUT \<longrightarrow>
            pollWiFi hw s = s\<lparr>effects := effects s @ [WiFiStatus]\<rparr>)
         \<and> (\<not> wifiLinked hw (now s) \<and> millis s - wifiConnectStart s > WIFI_CONNECT_TIMEOUT \<longrightarrow>
            pollWiFi hw s =
              s\<lparr>wifiConnectState := WFC_FAILED, wifiConnected := False,
                currentScreen := SCREEN_WIFI_RESULT,
                effects := effects s @ [WiFiStatus, WiFiDisconnect, DrawResult False ''Timeout'']\<rparr>
            \<and> timeoutsIn (effects (pollWiFi hw s)) = timeoutsIn (effects s) + 1)
         \<and> (wifiLinked hw (now s) \<longrightarrow>
            pollWiFi hw s =
              s\<lparr>wifiConnectState := WFC_CONNECTED, wifiConnected := True,
                currentScreen := SCREEN_WIFI_RESULT,
                effects := effects s @ [WiFiStatus, WiFiLocalIP,
                                        DrawResult True (''Connected: '' @ wifiLocalIP hw)]\<rparr>
            \<and> timeoutsIn (effects (pollWiFi hw s)) = timeoutsIn (effects s))
         \<and> (currentScreen s = SCREEN_WIFI_CONNECTING \<and> millis s - lastUiRefresh s > UI_REFRESH_MS
              \<longrightarrow> periodicRefresh hw s = pollWiFi hw (s\<lparr>lastUiRefresh := millis s\<rparr>))
         \<and> (\<forall>hw' u. wifiConnectState u \<noteq> WFC_CONNECTING \<longrightarrow>
               wifiConnectState (periodicRefresh hw' u) = wifiConnectState u
               \<and> timeoutsIn (effects (periodicRefresh hw' u)) = timeoutsIn (effects u))"
  using assms pollWiFi_waiting[of hw s] pollWiFi_timeout[of hw s] pollWiFi_linked[of hw s]
    periodicRefresh_not_connecting(1,3) periodicRefresh_due_connecting[of s hw]
  by (simp add: emit_def timeoutsIn_def)

theorem poll_while_connecting_witness:
  "wifiConnectState connectingState = WFC_CONNECTING
   \<and> \<not> wifiLinked quietHw (now connectingState)
   \<and> millis connectingState - wifiConnectStart connectingState \<le> WIFI_CONNECT_TIMEOUT
   \<and> wifiConnectState (pollWiFi quietHw connectingState) = WFC_CONNECTING
   \<and> effects (pollWiFi quietHw connectingState) = [WiFiStatus]
   \<and> millis timedOutState - wifiConnectStart timedOutState > WIFI_CONNECT_TIMEOUT
   \<and> wifiConnectState (pollWiFi quietHw timedOutState) = WFC_FAILED
   \<and> effects (pollWiFi quietHw timedOutState)
       = [WiFiStatus, WiFiDisconnect, DrawResult False ''Timeout'']
   \<and> wifiLinked linkedHw (now connectingState)
   \<and> wifiConnectState (pollWiFi linkedHw connectingState) = WFC_CONNECTED
   \<and> effects (pollWiFi linkedHw connectingState)
       = [WiFiStatus, WiFiLocalIP, DrawResult True ''Connected: 192.168.4.2'']
   \<and> periodicRefresh quietHw timedOutState
       = pollWiFi quietHw (timedOutState\<lparr>lastUiRefresh := millis timedOutState\<rparr>)
   \<and> timeoutsIn (effects (periodicRefresh quietHw (pollWiFi quietHw timedOutState))) = 1"
proof -
  have c: "wifiConnectState connectingState = WFC_CONNECTING"
    "wifiConnectState timedOutState = WFC_CONNECTING"
    "\<not> wifiLinked quietHw (now connectingState)" "\<not> wifiLinked quietHw (now timedOutState)"
    "wifiLinked linkedHw (now connectingState)" "wifiLocalIP linkedHw = ''192.168.4.2''"
    by (simp_all add: connectingState_def timedOutState_def quietHw_def linkedHw_def)
  have t: "millis connectingState - wifiConnectStart connectingState \<le> WIFI_CONNECT_TIMEOUT"
    "millis timedOutState - wifiConnectStart timedOutState > WIFI_CONNECT_TIMEOUT"
    "currentScreen timedOutState = SCREEN_WIFI_CONNECTING"
    "millis timedOutState - lastUiRefresh timedOutState > UI_REFRESH_MS"
    by (simp_all add: connectingState_def timedOutState_def millis_def WIFI_CONNECT_TIMEOUT_def
        UI_REFRESH_MS_def)
  have e: "effects connectingState = []" "effects timedOutState = []"
    by (simp_all add: connectingState_def timedOutState_def menuState_def)
  from poll_while_connecting [OF c(1), of quietHw] poll_while_connecting [OF c(2), of quietHw]
    poll_while_connecting [OF c(1), of linkedHw] c t e
  show ?thesis
    by (simp add: timeoutsIn_def)
qed

text \<open>
  The claim as stated fails when the radio is linked: 20001 ms after the start of the
  attempt, a poll that finds the radio linked does not abort and does not report a
  timeout, it sets the state to Connected.
\<close>

theorem late_link_counterexample:
  "wifiConnectState timedOutState = WFC_CONNECTING
   \<and> millis timedOutState - wifiConnectStart timedOutState > WIFI_CONNECT_TIMEOUT
   \<and> wifiLinked linkedHw (now timedOutState)
   \<and> wifiConnectState (pollWiFi linkedHw timedOutState) = WFC_CONNECTED
   \<and> effects (pollWiFi linkedHw timedOutState)
       = [WiFiStatus, WiFiLocalIP, DrawResult True ''Connected: 192.168.4.2'']
   \<and> timeoutsIn (effects (pollWiFi linkedHw timedOutState)) = 0"
  by (simp add: pollWiFi_def Let_def show_defs timeoutsIn_def timedOutState_def
      connectingState_def menuState_def linkedHw_def quietHw_def millis_def
      WIFI_CONNECT_TIMEOUT_def)

subsection \<open>How often the connection is polled\<close>

lemma connecting_phases:
  assumes "currentScreen s = SCREEN_WIFI_CONNECTING"
  shows "upPhase s = s\<lparr>btnUp := snd (pressedEdge (btnUp s))\<rparr>"
    and "downPhase s = s\<lparr>btnDown := snd (pressedEdge (btnDown s))\<rparr>"
    and "selPhase hw s = s\<lparr>btnSel := snd (pressedEdge (btnSel s))\<rparr>"
  using assms
  by (simp_all add: upPhase_def downPhase_def selPhase_def onUpEdge_def onDownEdge_def
      onSelEdge_def Let_def)

lemma connecting_before_back:
  fixes hw :: hardware and s :: app
  assumes "currentScreen s = SCREEN_WIFI_CONNECTING"
  defines "s3 \<equiv> selPhase hw (downPhase (upPhase (updateButtons hw s)))"
  shows "currentScreen s3 = SCREEN_WIFI_CONNECTING" and "effects s3 = effects s"
    and "wifiConnectState s3 = wifiConnectState s" and "lastUiRefresh s3 = lastUiRefresh s"
    and "now s3 = now s" and "btnBack s3 = btnBack (updateButtons hw s)"
proof -
  have 1: "currentScreen (updateButtons hw s) = SCREEN_WIFI_CONNECTING"
    using assms(1) by (simp add: updateButtons_def Let_def)
  have 2: "currentScreen (upPhase (updateButtons hw s)) = SCREEN_WIFI_CONNECTING"
    using 1 by (simp add: connecting_phases)
  have 3: "currentScreen (downPhase (upPhase (updateButtons hw s))) = SCREEN_WIFI_CONNECTING"
    using 2 by (simp add: connecting_phases)
  have eq: "s3 = (updateButtons hw s)
      \<lparr>btnUp := snd (pressedEdge (btnUp (updateButtons hw s))),
        btnDown := snd (pressedEdge (btnDown (updateButtons hw s))),
        btnSel := snd (pressedEdge (btnSel (updateButtons hw s)))\<rparr>"
    unfolding s3_def using 1 2 3 by (simp add: connecting_phases)
  show "currentScreen s3 = SCREEN_WIFI_CONNECTING" and "effects s3 = effects s"
    and "wifiConnectState s3 = wifiConnectState s" and "lastUiRefresh s3 = lastUiRefresh s"
    and "now s3 = now s" and "btnBack s3 = btnBack (updateButtons hw s)"
    using assms(1) unfolding eq by (simp_all add: updateButtons_def Let_def)
qed

lemma pollsIn_pollWiFi: "pollsIn (effects (pollWiFi hw s)) = pollsIn (effects s) + 1"
  by (simp add: pollWiFi_def Let_def show_defs pollsIn_def)

lemma pollsIn_periodicRefresh:
  "pollsIn (effects (periodicRefresh hw s))
     = pollsIn (effects s)
       + (if currentScreen s = SCREEN_WIFI_CONNECTING \<and> wifiConnectState s = WFC_CONNECTING
             \<and> millis s - lastUiRefresh s > UI_REFRESH_MS then 1 else 0)"
proof (cases "currentScreen s = SCREEN_WIFI_CONNECTING \<and> wifiConnectState s = WFC_CONNECTING
             \<and> millis s - lastUiRefresh s > UI_REFRESH_MS")
  case True
  then show ?thesis
    using pollsIn_pollWiFi[of hw "s\<lparr>lastUiRefresh := millis s\<rparr>"]
    by (simp add: periodicRefresh_due_connecting)
next
  case False
  then show ?thesis
    by (auto simp: periodicRefresh_def Let_def show_defs pollsIn_def)
qed

lemma loop_on_connecting:
  assumes "currentScreen s = SCREEN_WIFI_CONNECTING"
  shows "loop hw s = Some (delay 8 (periodicRefresh hw (edgesPhase hw s)))"
proof -
  define s3 where "s3 = selPhase hw (downPhase (upPhase (updateButtons hw s)))"
  have c3: "currentScreen s3 = SCREEN_WIFI_CONNECTING"
    unfolding s3_def using assms by (rule connecting_before_back(1))
  have "currentScreen (backPhase s3) \<noteq> SCREEN_WIFI_KEYBOARD
        \<and> currentScreen (backPhase s3) \<noteq> SCREEN_WIFI_MANUAL_SETUP"
    using c3 by (simp add: backPhase_def onBackEdge_def Let_def show_defs)
  then have "currentScreen (edgesPhase hw s) \<noteq> SCREEN_WIFI_KEYBOARD"
    and "currentScreen (edgesPhase hw s) \<noteq> SCREEN_WIFI_MANUAL_SETUP"
    by (simp_all add: edgesPhase_def s3_def)
  then show ?thesis
    by (simp add: loop_def kbLongPress_def manualLongPress_def)
qed

text \<open>
  Claim C3, as the sketch has it. A tick that starts on the Connecting screen returns,
  and it polls the radio at most once: exactly once when the connection state is
  Connecting, no BACK press edge cancels the attempt in this tick and more than 700 ms
  have passed since the last periodic refresh, and not at all otherwise. In any state,
  the periodic refresh at the end of a tick polls once when it is due on the Connecting
  screen in the Connecting state, and not at all otherwise.
\<close>

theorem poll_once_per_due_tick:
  assumes "currentScreen s = SCREEN_WIFI_CONNECTING"
  shows "(\<exists>s'. loop hw s = Some s'
           \<and> pollsIn (effects s')
               = pollsIn (effects s)
                 + (if wifiConnectState s = WFC_CONNECTING \<and> \<not> backEdgeThisTick hw s
                       \<and> millis s - lastUiRefresh s > UI_REFRESH_MS
                    then 1 else 0))
         \<and> (\<forall>u. pollsIn (effects (periodicRefresh hw u))
                 = pollsIn (effects u)
                   + (if currentScreen u = SCREEN_WIFI_CONNECTING
                         \<and> wifiConnectState u = WFC_CONNECTING
                         \<and> millis u - lastUiRefresh u > UI_REFRESH_MS
                      then 1 else 0))"
proof -
  define s3 where "s3 = selPhase hw (downPhase (upPhase (updateButtons hw s)))"
  note f = connecting_before_back[OF assms, of hw, folded s3_def]
  have e: "edgesPhase hw s = backPhase s3" by (simp add: edgesPhase_def s3_def)
  have m: "millis (backPhase s3) = millis s" "lastUiRefresh (backPhase s3) = lastUiRefresh s"
    using f by (simp_all add: backPhase_def onBackEdge_def Let_def show_defs millis_def)
  have p: "pollsIn (effects (backPhase s3)) = pollsIn (effects s)"
    using f by (simp add: backPhase_def onBackEdge_def Let_def show_defs pollsIn_def)
  have b: "backEdgeThisTick hw s \<Longrightarrow> currentScreen (backPhase s3) = SCREEN_WIFI_RESULT"
    using f by (simp add: backEdgeThisTick_def backPhase_def onBackEdge_def Let_def show_defs)
  have n: "\<not> backEdgeThisTick hw s \<Longrightarrow> currentScreen (backPhase s3) = SCREEN_WIFI_CONNECTING
      \<and> wifiConnectState (backPhase s3) = wifiConnectState s"
    using f by (simp add: backEdgeThisTick_def backPhase_def Let_def)
  have "pollsIn (effects (delay 8 (periodicRefresh hw (edgesPhase hw s))))
          = pollsIn (effects s)
            + (if wifiConnectState s = WFC_CONNECTING \<and> \<not> backEdgeThisTick hw s
                  \<and> millis s - lastUiRefresh s > UI_REFRESH_MS then 1 else 0)"
    using b n by (cases "backEdgeThisTick hw s") (simp_all add: e delay_def pollsIn_periodicRefresh m p)
  with loop_on_connecting[OF assms, of hw] pollsIn_periodicRefresh[of hw] show ?thesis by simp
qed

theorem poll_once_per_due_tick_witness:
  "currentScreen connectingState = SCREEN_WIFI_CONNECTING
   \<and> (\<exists>s'. loop linkedHw connectingState = Some s' \<and> pollsIn (effects s') = 0)
   \<and> currentScreen timedOutState = SCREEN_WIFI_CONNECTING
   \<and> (\<exists>s'. loop quietHw timedOutState = Some s' \<and> pollsIn (effects s') = 1)"
proof -
  have c: "currentScreen connectingState = SCREEN_WIFI_CONNECTING"
    "currentScreen timedOutState = SCREEN_WIFI_CONNECTING"
    by (simp_all add: connectingState_def timedOutState_def)
  have "backEdgeThisTick hw connectingState = False" "backEdgeThisTick hw timedOutState = False" for hw
    by (simp_all add: backEdgeThisTick_def connectingState_def timedOutState_def updateButtons_def
        menuState_def initB_def updateOne_def pressedEdge_def Let_def)
  with poll_once_per_due_tick [OF c(1), of linkedHw] poll_once_per_due_tick [OF c(2), of quietHw] c
  show ?thesis
    by (simp add: connectingState_def timedOutState_def millis_def UI_REFRESH_MS_def pollsIn_def
        menuState_def)
qed


text \<open>
  The claim as stated fails: 100 ms after the last refresh a tick in the Connecting
  state does not query the radio, and stays Connecting although the radio is linked.
\<close>

lemma loop_connectingState:
  "loop linkedHw connectingState
     = Some (connectingState\<lparr>now := 1108\<rparr>)"
  by (simp add: loop_on_connecting connectingState_def edgesPhase_def upPhase_def downPhase_def
      selPhase_def backPhase_def pressedEdge_def periodicRefresh_def delay_def
      updateButtons_def linkedHw_def quietHw_def menuState_def initB_def updateOne_def millis_def
      DEBOUNCE_MS_def UI_REFRESH_MS_def Let_def onUpEdge_def onDownEdge_def onSelEdge_def)

theorem no_poll_before_refresh_counterexample:
  "currentScreen connectingState = SCREEN_WIFI_CONNECTING
   \<and> wifiConnectState connectingState = WFC_CONNECTING
   \<and> wifiLinked linkedHw (now connectingState)
   \<and> (\<exists>s'. loop linkedHw connectingState = Some s'
            \<and> pollsIn (effects s') = pollsIn (effects connectingState)
            \<and> wifiConnectState s' = WFC_CONNECTING)"
  by (simp add: loop_connectingState) (simp add: connectingState_def linkedHw_def)

subsection \<open>Observing the release in the busy-wait loop\<close>

lemma word_le30_add40:
  assumes "(x :: 32 word) \<le> 30" shows "\<not> (x + 40 \<le> 30)"
proof -
  from assms have "unat x \<le> 30" by (simp add: word_le_nat_alt)
  then have "unat x + unat (40 :: 32 word) < 2 ^ LENGTH(32)" by simp
  then have "unat (x + 40) = unat x + unat (40 :: 32 word)" by (simp only: unat_add_lem)
  then show ?thesis by (simp add: word_le_nat_alt)
qed

lemma pin_updateOne [simp]: "pin (updateOne t raw b) = pin b"
  by (simp add: updateOne_def)

lemma lastRaw_updateOne [simp]: "lastRaw (updateOne t raw b) = raw"
  by (simp add: updateOne_def)

lemma high_sample_settled:
  assumes "lastRaw b = HIGH" and "\<not> stable (updateOne t HIGH b)"
  shows "updateOne t HIGH b = b" and "t - lastChange b \<le> DEBOUNCE_MS"
  using assms by (auto simp: updateOne_def not_less split: if_splits)

lemma high_sample_stable:
  "lastRaw b = HIGH \<Longrightarrow> stable b \<Longrightarrow> updateOne t HIGH b = b"
  by (simp add: updateOne_def)

lemma five_high_samples:
  assumes "lastRaw b = HIGH"
  shows "stable (updateOne (t + 40) HIGH (updateOne (t + 30) HIGH (updateOne (t + 20) HIGH
           (updateOne (t + 10) HIGH (updateOne t HIGH b)))))"
proof (rule ccontr)
  define b1 where "b1 = updateOne t HIGH b"
  define b2 where "b2 = updateOne (t + 10) HIGH b1"
  define b3 where "b3 = updateOne (t + 20) HIGH b2"
  define b4 where "b4 = updateOne (t + 30) HIGH b3"
  define b5 where "b5 = updateOne (t + 40) HIGH b4"
  assume "\<not> stable (updateOne (t + 40) HIGH (updateOne (t + 30) HIGH (updateOne (t + 20) HIGH
           (updateOne (t + 10) HIGH (updateOne t HIGH b)))))"
  then have n5: "\<not> stable b5" by (simp add: b1_def b2_def b3_def b4_def b5_def)
  have l: "lastRaw b1 = HIGH" "lastRaw b2 = HIGH" "lastRaw b3 = HIGH" "lastRaw b4 = HIGH"
    by (simp_all add: b1_def b2_def b3_def b4_def)
  have n4: "\<not> stable b4"
    using n5 high_sample_stable[OF l(4), of "t + 40"] by (auto simp: b5_def)
  have n3: "\<not> stable b3"
    using n4 high_sample_stable[OF l(3), of "t + 30"] by (auto simp: b4_def)
  have n2: "\<not> stable b2"
    using n3 high_sample_stable[OF l(2), of "t + 20"] by (auto simp: b3_def)
  have n1: "\<not> stable b1"
    using n2 high_sample_stable[OF l(1), of "t + 10"] by (auto simp: b2_def)
  have e1: "b1 = b" and d1: "t - lastChange b \<le> DEBOUNCE_MS"
    using high_sample_settled[OF assms, of t] n1 by (simp_all add: b1_def)
  have e2: "b2 = b" using high_sample_settled(1)[OF l(1), of "t + 10"] n2 e1 by (simp add: b2_def)
  have e3: "b3 = b" using high_sample_settled(1)[OF l(2), of "t + 20"] n3 e2 by (simp add: b3_def)
  have e4: "b4 = b" using high_sample_settled(1)[OF l(3), of "t + 30"] n4 e3 by (simp add: b4_def)
  have d5: "t + 40 - lastChange b \<le> DEBOUNCE_MS"
    using high_sample_settled(2)[OF l(4), of "t + 40"] n5 e4 by (simp add: b5_def)
  have "t + 40 - lastChange b = (t - lastChange b) + 40" by simp
  with d1 d5 word_le30_add40[of "t - lastChange b"] show False
    by (simp add: DEBOUNCE_MS_def)
qed


lemma now_waitStep [simp]: "now (waitStep hw s) = now s + 10"
  by (simp add: waitStep_def updateButtons_def delay_def Let_def)

lemma btn_waitStep:
  "btnSel (waitStep hw s)
     = updateOne (of_nat (now s) + 10) (digitalRead hw (pin (btnSel s)) (now s + 10)) (btnSel s)"
  "btnBack (waitStep hw s)
     = updateOne (of_nat (now s) + 10) (digitalRead hw (pin (btnBack s)) (now s + 10)) (btnBack s)"
  by (simp_all add: waitStep_def updateButtons_def delay_def millis_def Let_def)

lemma waitRelease_unfold:
  "waitRelease sel hw s = (if isPressed (sel s) then waitRelease sel hw (waitStep hw s) else Some s)"
  by (subst waitRelease.simps) (simp add: waitStep_def)

lemma waitRelease_returns:
  "\<not> isPressed (sel ((waitStep hw ^^ n) s)) \<Longrightarrow> \<exists>s'. waitRelease sel hw s = Some s'"
proof (induction n arbitrary: s)
  case 0
  then show ?case by (subst waitRelease_unfold) simp
next
  case (Suc n)
  show ?case
  proof (cases "isPressed (sel s)")
    case True
    from Suc.prems have "\<not> isPressed (sel ((waitStep hw ^^ n) (waitStep hw s)))"
      by (simp add: funpow_swap1)
    from Suc.IH[OF this] True show ?thesis by (subst waitRelease_unfold) simp
  next
    case False
    then show ?thesis by (subst waitRelease_unfold) simp
  qed
qed

lemma release_observed:
  fixes sel :: "app \<Rightarrow> Btn"
  assumes step: "\<And>s. sel (waitStep hw s)
       = updateOne (of_nat (now s) + 10) (digitalRead hw (pin (sel s)) (now s + 10)) (sel s)"
    and rel: "\<forall>t\<ge>R. digitalRead hw (pin (sel s)) t = HIGH"
  shows "\<exists>n. \<not> isPressed (sel ((waitStep hw ^^ n) s))"
proof -
  have iter: "now ((waitStep hw ^^ k) s) = now s + 10 * k
              \<and> pin (sel ((waitStep hw ^^ k) s)) = pin (sel s)" for k
    by (induction k) (simp_all add: step)
  define u where "u = (waitStep hw ^^ R) s"
  define T :: "32 word" where "T = of_nat (now u)"
  have high: "digitalRead hw (pin (sel s)) (now u + d) = HIGH" for d
    using rel iter[of R] by (simp add: u_def)
  have pin_u: "pin (sel ((waitStep hw ^^ k) u)) = pin (sel s)" for k
    using iter[of "k + R"] by (simp add: u_def funpow_add)
  have now_u: "now ((waitStep hw ^^ k) u) = now u + 10 * k" for k
    using iter[of "k + R"] iter[of R] by (simp add: u_def funpow_add)
  have next_sample: "sel ((waitStep hw ^^ Suc k) u)
      = updateOne (T + of_nat (10 * k) + 10) HIGH (sel ((waitStep hw ^^ k) u))" for k
    using step[of "(waitStep hw ^^ k) u"] high[of "10 * k + 10"]
    by (simp add: pin_u now_u T_def add.assoc)
  define b1 where "b1 = sel ((waitStep hw ^^ 1) u)"
  have l1: "lastRaw b1 = HIGH"
    unfolding b1_def using next_sample[of 0] by simp
  have "sel ((waitStep hw ^^ 6) u)
      = updateOne (T + 20 + 40) HIGH (updateOne (T + 20 + 30) HIGH (updateOne (T + 20 + 20) HIGH
          (updateOne (T + 20 + 10) HIGH (updateOne (T + 20) HIGH b1))))"
    unfolding b1_def
    using next_sample[of 1] next_sample[of 2] next_sample[of 3] next_sample[of 4] next_sample[of 5]
    by (simp add: eval_nat_numeral add.commute)
  then have "stable (sel ((waitStep hw ^^ 6) u))"
    using five_high_samples[OF l1, of "T + 20"] by simp
  then have "\<not> isPressed (sel ((waitStep hw ^^ (6 + R)) s))"
    by (simp add: isPressed_def u_def funpow_add)
  then show ?thesis ..
qed

lemma waitRelease_sel_returns:
  assumes "\<forall>t\<ge>R. digitalRead hw (pin (btnSel s)) t = HIGH"
  shows "\<exists>s'. waitRelease btnSel hw s = Some s'"
proof -
  from release_observed[of btnSel hw R s, OF btn_waitStep(1) assms]
  obtain n where "\<not> isPressed (btnSel ((waitStep hw ^^ n) s))" ..
  then show ?thesis by (rule waitRelease_returns)
qed

lemma waitRelease_back_returns:
  assumes "\<forall>t\<ge>R. digitalRead hw (pin (btnBack s)) t = HIGH"
  shows "\<exists>s'. waitRelease btnBack hw s = Some s'"
proof -
  from release_observed[of btnBack hw R s, OF btn_waitStep(2) assms]
  obtain n where "\<not> isPressed (btnBack ((waitStep hw ^^ n) s))" ..
  then show ?thesis by (rule waitRelease_returns)
qed


subsection \<open>Long presses on the keyboard\<close>




lemma showKeyboard_buffers [simp]:
  "activeBuffer (showKeyboard s) = activeBuffer s" "idleBuffer (showKeyboard s) = idleBuffer s"
  "btnSel (showKeyboard s) = btnSel s" "btnBack (showKeyboard s) = btnBack s"
  by (simp_all add: show_defs activeBuffer_def idleBuffer_def)

lemma edit_buttons [simp]:
  "btnSel (insertHighlighted s) = btnSel s" "btnBack (insertHighlighted s) = btnBack s"
  "btnSel (deleteLast s) = btnSel s" "btnBack (deleteLast s) = btnBack s"
  "editingSSID (insertHighlighted s) = editingSSID s" "editingSSID (deleteLast s) = editingSSID s"
  "editingSSID (showKeyboard s) = editingSSID s"
  by (simp_all add: insertHighlighted_def deleteLast_def Let_def show_defs)





lemma kbSelLong_returns:
  assumes "\<forall>t\<ge>R. digitalRead hw (pin (btnSel s)) t = HIGH"
  shows "\<exists>s'. kbSelLong hw s = Some s'"
proof (cases "longHeld s (btnSel s)")
  case True
  from assms have "\<forall>t\<ge>R. digitalRead hw (pin (btnSel (insertHighlighted s))) t = HIGH" by simp
  from waitRelease_sel_returns[OF this] True show ?thesis by (auto simp: kbSelLong_def)
next
  case False
  then show ?thesis by (simp add: kbSelLong_def)
qed

lemma kbBackLong_returns:
  assumes "\<forall>t\<ge>R. digitalRead hw (pin (btnBack s)) t = HIGH"
  shows "\<exists>s'. kbBackLong hw s = Some s'"
proof (cases "longHeld s (btnBack s)")
  case True
  from assms have "\<forall>t\<ge>R. digitalRead hw (pin (btnBack (deleteLast s))) t = HIGH" by simp
  from waitRelease_back_returns[OF this] True show ?thesis by (auto simp: kbBackLong_def)
next
  case False
  then show ?thesis by (simp add: kbBackLong_def)
qed

lemma held_facts:
  "longHeld holdSelState (btnSel holdSelState)" "longHeld holdBackState (btnBack holdBackState)"
  "longHeld fullState (btnSel fullState)"
  "longHeld bothHeldState (btnSel bothHeldState)" "longHeld bothHeldState (btnBack bothHeldState)"
  by (simp_all add: longHeld_def holdSelState_def holdBackState_def fullState_def
      bothHeldState_def heldBtn_def isPressed_def millis_def LONGPRESS_MS_def)

lemma heldHw_release:
  "\<forall>t\<ge>7000. digitalRead heldHw (pin (btnSel holdSelState)) t = HIGH"
  "\<forall>t\<ge>7000. digitalRead heldHw (pin (btnBack holdBackState)) t = HIGH"
  "\<forall>t\<ge>7000. digitalRead heldHw (pin (btnSel fullState)) t = HIGH"
  "\<forall>t\<ge>7000. digitalRead heldHw (pin (btnSel bothHeldState)) t = HIGH"
  "\<forall>t\<ge>7000. digitalRead heldHw (pin (btnBack bothHeldState)) t = HIGH"
  by (simp_all add: heldHw_def quietHw_def)

lemma samePins_step: "samePins s (updateButtons hw (delay 10 s))"
  by (simp add: samePins_def updateButtons_def delay_def Let_def)

lemma waitRelease_pins: "waitRelease sel hw s = Some s' \<Longrightarrow> samePins s s'"
proof (erule waitRelease.raw_induct[rotated], goal_cases)
  case (1 w sel hw s s')
  show ?case
  proof (cases "isPressed (sel s)")
    case True
    with 1(2) have "w sel hw (updateButtons hw (delay 10 s)) = Some s'" by simp
    then have "samePins (updateButtons hw (delay 10 s)) s'" by (rule 1(1))
    with samePins_step[of s hw] show ?thesis by (simp add: samePins_def)
  next
    case False
    with 1(2) show ?thesis by (simp add: samePins_def)
  qed
qed

lemma kbSelLong_pins: "kbSelLong hw s = Some s' \<Longrightarrow> pin (btnBack s') = pin (btnBack s)"
  by (auto simp: kbSelLong_def samePins_def split: if_splits dest!: waitRelease_pins)

lemma kbConfirm_needs_both:
  "\<not> (isPressed (btnSel s) \<and> isPressed (btnBack s)) \<Longrightarrow> kbConfirm hw s = s"
  by (auto simp: kbConfirm_def)

lemma elapse_fields [simp]:
  "currentScreen (elapse l hw s) = currentScreen s" "preferences (elapse l hw s) = preferences s"
  "wifiConnectState (elapse l hw s) = wifiConnectState s" "effects (elapse l hw s) = effects s"
  "btnUp (elapse l hw s) = btnUp s" "btnDown (elapse l hw s) = btnDown s"
  "btnSel (elapse l hw s) = btnSel s" "btnBack (elapse l hw s) = btnBack s"
  "now (elapse l hw s) = now s + lapse hw l (now s)"
  by (simp_all add: elapse_def delay_def)

lemma kbSelLong_frame:
  assumes "kbSelLong hw s = Some s'"
  shows "currentScreen s' = currentScreen s" and "preferences s' = preferences s"
    and "wifiConnectState s' = wifiConnectState s"
    and "set (effects s') \<subseteq> insert (Draw SCREEN_WIFI_KEYBOARD) (set (effects s))"
    and "longHeld s (btnSel s) \<Longrightarrow> \<not> isPressed (btnSel s')"
    and "\<not> longHeld s (btnSel s) \<Longrightarrow> s' = s"
proof -
  have *: "currentScreen s' = currentScreen s \<and> preferences s' = preferences s
      \<and> wifiConnectState s' = wifiConnectState s
      \<and> set (effects s') \<subseteq> insert (Draw SCREEN_WIFI_KEYBOARD) (set (effects s))
      \<and> (longHeld s (btnSel s) \<longrightarrow> \<not> isPressed (btnSel s'))
      \<and> (\<not> longHeld s (btnSel s) \<longrightarrow> s' = s)"
  proof (cases "longHeld s (btnSel s)")
    case True
    with assms obtain u where u: "waitRelease btnSel hw (insertHighlighted s) = Some u"
      and s': "s' = showKeyboard u"
      by (auto simp: kbSelLong_def)
    from waitRelease_frame[OF u] waitRelease_released[OF u] True show ?thesis
      by (auto simp: s' onlyClockAndButtons_def show_defs insertHighlighted_def Let_def)
  next
    case False
    with assms show ?thesis by (auto simp: kbSelLong_def)
  qed
  then show "currentScreen s' = currentScreen s" and "preferences s' = preferences s"
    and "wifiConnectState s' = wifiConnectState s"
    and "set (effects s') \<subseteq> insert (Draw SCREEN_WIFI_KEYBOARD) (set (effects s))"
    and "longHeld s (btnSel s) \<Longrightarrow> \<not> isPressed (btnSel s')"
    and "\<not> longHeld s (btnSel s) \<Longrightarrow> s' = s"
    by simp_all
qed

lemma kbBackLong_frame:
  assumes "kbBackLong hw s = Some s'"
  shows "currentScreen s' = currentScreen s" and "preferences s' = preferences s"
    and "wifiConnectState s' = wifiConnectState s"
    and "set (effects s') \<subseteq> insert (Draw SCREEN_WIFI_KEYBOARD) (set (effects s))"
    and "longHeld s (btnBack s) \<Longrightarrow> \<not> isPressed (btnBack s')"
    and "\<not> longHeld s (btnBack s) \<Longrightarrow> s' = s"
proof -
  have *: "currentScreen s' = currentScreen s \<and> preferences s' = preferences s
      \<and> wifiConnectState s' = wifiConnectState s
      \<and> set (effects s') \<subseteq> insert (Draw SCREEN_WIFI_KEYBOARD) (set (effects s))
      \<and> (longHeld s (btnBack s) \<longrightarrow> \<not> isPressed (btnBack s'))
      \<and> (\<not> longHeld s (btnBack s) \<longrightarrow> s' = s)"
  proof (cases "longHeld s (btnBack s)")
    case True
    with assms obtain u where u: "waitRelease btnBack hw (deleteLast s) = Some u"
      and s': "s' = showKeyboard u"
      by (auto simp: kbBackLong_def)
    from waitRelease_frame[OF u] waitRelease_released[OF u] True show ?thesis
      by (auto simp: s' onlyClockAndButtons_def show_defs deleteLast_def)
  next
    case False
    with assms show ?thesis by (auto simp: kbBackLong_def)
  qed
  then show "currentScreen s' = currentScreen s" and "preferences s' = preferences s"
    and "wifiConnectState s' = wifiConnectState s"
    and "set (effects s') \<subseteq> insert (Draw SCREEN_WIFI_KEYBOARD) (set (effects s))"
    and "longHeld s (btnBack s) \<Longrightarrow> \<not> isPressed (btnBack s')"
    and "\<not> longHeld s (btnBack s) \<Longrightarrow> s' = s"
    by simp_all
qed

lemma kbLongPress_blocks:
  assumes "kbLongPress hw s = Some s'" and "currentScreen s = SCREEN_WIFI_KEYBOARD"
  obtains s1 s2 where "kbSelLong hw s = Some s1"
    and "kbBackLong hw (elapse 543 hw s1) = Some s2" and "s' = kbConfirm hw s2"
  using assms by (auto simp: kbLongPress_def split: option.splits)

lemma kbLongPress_returns:
  assumes "\<forall>t\<ge>R. digitalRead hw (pin (btnSel s)) t = HIGH"
    and "\<forall>t\<ge>R. digitalRead hw (pin (btnBack s)) t = HIGH"
  shows "\<exists>s'. kbLongPress hw s = Some s'"
proof -
  from kbSelLong_returns[OF assms(1)] obtain s1 where 1: "kbSelLong hw s = Some s1" ..
  from assms(2) kbSelLong_pins[OF 1]
  have "\<forall>t\<ge>R. digitalRead hw (pin (btnBack (elapse 543 hw s1))) t = HIGH" by simp
  from kbBackLong_returns[OF this]
  obtain s2 where 2: "kbBackLong hw (elapse 543 hw s1) = Some s2" ..
  from 1 2 show ?thesis by (simp add: kbLongPress_def)
qed

subsection \<open>The phases of a press\<close>













lemma pin_pressedEdge [simp]: "pin (snd (pressedEdge b)) = pin b"
  by (simp add: pressedEdge_def)






subsection \<open>One pass on the keyboard screen\<close>













subsection \<open>A press-and-hold episode\<close>


























subsection \<open>Once per hold\<close>




subsection \<open>The compound confirm gesture\<close>

lemma kbLongPress_block_fired:
  assumes "kbLongPress hw s = Some s'" and "currentScreen s = SCREEN_WIFI_KEYBOARD"
    and "longHeld s (btnSel s) \<or> longHeld (elapse 543 hw s) (btnBack s)"
  shows "currentScreen s' = SCREEN_WIFI_KEYBOARD" and "preferences s' = preferences s"
    and "wifiConnectState s' = wifiConnectState s"
    and "set (effects s') \<subseteq> insert (Draw SCREEN_WIFI_KEYBOARD) (set (effects s))"
proof -
  from assms(1,2) obtain s1 s2 where 1: "kbSelLong hw s = Some s1"
    and 2: "kbBackLong hw (elapse 543 hw s1) = Some s2" and 3: "s' = kbConfirm hw s2"
    by (rule kbLongPress_blocks)
  define x where "x = elapse 543 hw s1"
  note f1 = kbSelLong_frame[OF 1] and f2 = kbBackLong_frame[OF 2, folded x_def]
  have "\<not> (isPressed (btnSel s2) \<and> isPressed (btnBack s2))"
  proof (cases "longHeld x (btnBack x)")
    case True
    with f2(5) show ?thesis by simp
  next
    case False
    with f2(6) have e2: "s2 = x" by simp
    show ?thesis
    proof (cases "longHeld s (btnSel s)")
      case True
      with f1(5) e2 show ?thesis by (simp add: x_def)
    next
      case nsel: False
      with f1(6) have "s1 = s" by simp
      with nsel assms(3) False show ?thesis by (simp add: x_def)
    qed
  qed
  then have "s' = s2" using 3 by (simp add: kbConfirm_needs_both)
  with f1 f2 assms(2) show "currentScreen s' = SCREEN_WIFI_KEYBOARD"
    and "preferences s' = preferences s" and "wifiConnectState s' = wifiConnectState s"
    and "set (effects s') \<subseteq> insert (Draw SCREEN_WIFI_KEYBOARD) (set (effects s))"
    by (auto simp: x_def)
qed

lemma kbLongPress_confirm_only_in_race:
  assumes "kbLongPress hw s = Some s'" and "currentScreen s = SCREEN_WIFI_KEYBOARD"
    and "currentScreen s' \<noteq> SCREEN_WIFI_KEYBOARD"
  shows "\<not> longHeld s (btnSel s)" and "\<not> longHeld (elapse 543 hw s) (btnBack s)"
    and "lapse hw 555 (now s + lapse hw 543 (now s)) + lapse hw 543 (now s) \<noteq> 0"
proof -
  show n1: "\<not> longHeld s (btnSel s)" and n2: "\<not> longHeld (elapse 543 hw s) (btnBack s)"
    using kbLongPress_block_fired(1)[OF assms(1,2)] assms(3) by blast+
  from assms(1,2) obtain s1 s2 where 1: "kbSelLong hw s = Some s1"
    and 2: "kbBackLong hw (elapse 543 hw s1) = Some s2" and 3: "s' = kbConfirm hw s2"
    by (rule kbLongPress_blocks)
  from n1 1 have e1: "s1 = s" by (simp add: kbSelLong_def)
  from n2 2 have e2: "s2 = elapse 543 hw s" by (simp add: kbBackLong_def e1)
  show "lapse hw 555 (now s + lapse hw 543 (now s)) + lapse hw 543 (now s) \<noteq> 0"
  proof
    assume a: "lapse hw 555 (now s + lapse hw 543 (now s)) + lapse hw 543 (now s) = 0"
    then have z1: "lapse hw 543 (now s) = 0" by simp
    with a have z: "lapse hw 543 (now s) = 0" "lapse hw 555 (now s) = 0" by simp_all
    have "currentScreen (kbConfirm hw (elapse 543 hw s)) = SCREEN_WIFI_KEYBOARD"
      using n1 assms(2) z
      by (auto simp: kbConfirm_def Let_def longHeld_def elapse_def delay_def millis_def)
    with assms(3) 3 e2 show False by simp
  qed
qed

lemma edgesPhase_bothHeld: "edgesPhase (heldHw\<lparr>lapse := L\<rparr>) bothHeldState = bothHeldState"
  by (simp add: edgesPhase_def upPhase_def downPhase_def selPhase_def backPhase_def
      pressedEdge_def updateButtons_def updateOne_def millis_def Let_def DEBOUNCE_MS_def
      bothHeldState_def holdSelState_def menuState_def heldBtn_def initB_def heldHw_def
      quietHw_def BTN_SEL_PIN_def BTN_BACK_PIN_def BTN_UP_PIN_def BTN_DOWN_PIN_def)

lemma loop_bothHeld:
  "\<exists>s'. loop (heldHw\<lparr>lapse := L\<rparr>) bothHeldState = Some s'
        \<and> currentScreen s' = SCREEN_WIFI_KEYBOARD
        \<and> wifiConnectState s' = WFC_IDLE
        \<and> preferences s' PREF_SSID_KEY = None \<and> preferences s' PREF_PWD_KEY = None
        \<and> set (effects s') \<subseteq> {Draw SCREEN_WIFI_KEYBOARD}"
proof -
  define hw where "hw = heldHw\<lparr>lapse := L\<rparr>"
  have k: "currentScreen bothHeldState = SCREEN_WIFI_KEYBOARD"
    by (simp add: bothHeldState_def holdSelState_def)
  have r: "\<forall>t\<ge>7000. digitalRead hw (pin (btnSel bothHeldState)) t = HIGH"
    "\<forall>t\<ge>7000. digitalRead hw (pin (btnBack bothHeldState)) t = HIGH"
    using heldHw_release(4,5) by (simp_all add: hw_def)
  from kbLongPress_returns[OF r]
  obtain s1 where s1: "kbLongPress hw bothHeldState = Some s1" ..
  note f = kbLongPress_block_fired[OF s1 k disjI1[OF held_facts(4)]]
  have i: "wifiConnectState bothHeldState = WFC_IDLE" "preferences bothHeldState = Map.empty"
    "effects bothHeldState = []"
    by (simp_all add: bothHeldState_def holdSelState_def menuState_def)
  have m: "manualLongPress hw s1 = Some s1"
    using f(1) by (simp add: manualLongPress_def)
  have p: "currentScreen (periodicRefresh hw s1) = SCREEN_WIFI_KEYBOARD"
    "wifiConnectState (periodicRefresh hw s1) = wifiConnectState s1"
    "preferences (periodicRefresh hw s1) = preferences s1"
    "effects (periodicRefresh hw s1) = effects s1"
    using f(1) by (simp_all add: periodicRefresh_def Let_def)
  have "loop hw bothHeldState = Some (delay 8 (periodicRefresh hw s1))"
    using s1 m by (simp add: loop_def hw_def edgesPhase_bothHeld)
  with f p i show ?thesis
    by (simp add: delay_def hw_def)
qed

text \<open>
  The compound test itself can succeed, but only in a pass in which neither block has
  run: both holds are still within the threshold at the readings of lines 521 and 543 and
  pass it before the readings of lines 555 and 556. With both buttons pressed at
  1000 ms, a pass that starts at 2200 ms and takes 1 ms to reach line 555 stores the
  credentials and starts the connection.
\<close>

lemma confirm_reachable_in_race:
  "\<exists>s'. loop raceHw raceState = Some s'
        \<and> currentScreen s' = SCREEN_WIFI_CONNECTING \<and> wifiConnectState s' = WFC_CONNECTING
        \<and> preferences s' PREF_SSID_KEY = Some ''home'' \<and> preferences s' PREF_PWD_KEY = Some ''pw''"
proof -
  have e: "edgesPhase raceHw raceState = raceState"
    by (simp add: edgesPhase_def upPhase_def downPhase_def selPhase_def backPhase_def
      pressedEdge_def updateButtons_def updateOne_def millis_def Let_def DEBOUNCE_MS_def
      raceState_def raceHw_def bothHeldState_def holdSelState_def menuState_def heldBtn_def
      initB_def heldHw_def quietHw_def BTN_SEL_PIN_def BTN_BACK_PIN_def BTN_UP_PIN_def
      BTN_DOWN_PIN_def)
  have n: "\<not> longHeld raceState (btnSel raceState)"
    "\<not> longHeld (elapse 543 raceHw raceState) (btnBack raceState)"
    by (simp_all add: longHeld_def raceState_def raceHw_def bothHeldState_def holdSelState_def
        heldBtn_def millis_def LONGPRESS_MS_def elapse_def delay_def)
  have x: "elapse 543 raceHw raceState = raceState"
    by (simp add: elapse_def delay_def raceHw_def)
  have k: "kbLongPress raceHw raceState = Some (kbConfirm raceHw raceState)"
    using n by (simp add: kbLongPress_def kbSelLong_def kbBackLong_def x)
      (simp add: raceState_def bothHeldState_def holdSelState_def)
  define c where "c = kbConfirm raceHw raceState"
  have c: "currentScreen c = SCREEN_WIFI_CONNECTING" "wifiConnectState c = WFC_CONNECTING"
    "preferences c PREF_SSID_KEY = Some ''home''" "preferences c PREF_PWD_KEY = Some ''pw''"
    "now c = 2361" "lastUiRefresh c = 2197"
    unfolding c_def
    by (simp_all add: kbConfirm_def Let_def elapse_def delay_def raceHw_def raceState_def
        bothHeldState_def holdSelState_def menuState_def heldBtn_def isPressed_def millis_def
        LONGPRESS_MS_def startWiFiConnect_def putString_def emit_def
        PREF_SSID_KEY_def PREF_PWD_KEY_def)
  have m: "manualLongPress raceHw c = Some c"
    using c(1) by (simp add: manualLongPress_def)
  have p: "periodicRefresh raceHw c = c"
    using c(5,6) by (simp add: periodicRefresh_def Let_def millis_def UI_REFRESH_MS_def)
  have "loop raceHw raceState = Some (delay 8 c)"
    by (simp add: loop_def e k m p flip: c_def)
  with c show ?thesis by (simp add: delay_def)
qed

text \<open>
  Claim C1. On the keyboard screen, a tick at which SELECT and BACK are both
  stable-pressed and both held longer than the long-press threshold should save both
  buffers to the preferences and switch to the Connecting screen. In the sketch the
  SELECT block and the BACK block come first and each waits for the release of its
  button, so that in such a tick the test of the compound gesture, which follows them,
  finds a button released and does nothing (\<open>kbLongPress_block_fired\<close>). With both
  buttons stable-pressed since 1000 ms, at the first tick past the threshold (2205 ms),
  and released at 7000 ms, the tick returns on the keyboard screen: nothing is stored,
  no connection is started, and the only calls are keyboard redraws; this is so
  whatever time passes between the clock readings of the block.
\<close>

theorem confirm_gesture_does_not_connect:
  "currentScreen bothHeldState = SCREEN_WIFI_KEYBOARD
   \<and> longHeld bothHeldState (btnSel bothHeldState)
   \<and> longHeld bothHeldState (btnBack bothHeldState)
   \<and> (\<exists>s'. loop heldHw bothHeldState = Some s'
           \<and> currentScreen s' = SCREEN_WIFI_KEYBOARD
           \<and> wifiConnectState s' = WFC_IDLE
           \<and> preferences s' PREF_SSID_KEY = None \<and> preferences s' PREF_PWD_KEY = None
           \<and> set (effects s') \<subseteq> {Draw SCREEN_WIFI_KEYBOARD})
   \<and> (\<forall>L. \<exists>s'. loop (heldHw\<lparr>lapse := L\<rparr>) bothHeldState = Some s'
           \<and> currentScreen s' = SCREEN_WIFI_KEYBOARD
           \<and> wifiConnectState s' = WFC_IDLE
           \<and> preferences s' PREF_SSID_KEY = None \<and> preferences s' PREF_PWD_KEY = None
           \<and> set (effects s') \<subseteq> {Draw SCREEN_WIFI_KEYBOARD})"
proof -
  have k: "currentScreen bothHeldState = SCREEN_WIFI_KEYBOARD"
    by (simp add: bothHeldState_def holdSelState_def)
  have "heldHw\<lparr>lapse := lapse heldHw\<rparr> = heldHw" by simp
  with loop_bothHeld[of "lapse heldHw"] loop_bothHeld k held_facts(4,5) show ?thesis
    by simp
qed

end
